theory Spec2Isabelle
  imports Complex_Main "HOL-Library.Word"
begin

section \<open>Single-precision arithmetic\<close>

text \<open>
  The game keeps positions, speeds and times in C \<^verbatim>\<open>float\<close>s.  A finite
  \<^verbatim>\<open>float\<close> is a real number on the binary32 grid, and every arithmetic
  operation of the source is the exact operation on reals followed by rounding to
  that grid (round to nearest, ties to even): 24 significant bits, exponents from
  \<open>-126\<close> (below which the grid is the subnormal one, spacing \<open>2 powi (-149)\<close>) up to
  \<open>127\<close>.  Infinities and NaN are not part of the model: beyond the largest finite
  number \<open>fl\<close> keeps rounding on the grid of the top binade.  Every expression is
  rounded to single precision after each operation (\<^verbatim>\<open>FLT_EVAL_METHOD\<close> 0).
\<close>

text \<open>Rounding a real to the nearest integer, ties to the even one.\<close>

definition rhe :: "real \<Rightarrow> int" where
  "rhe y = (let f = \<lfloor>y\<rfloor>; d = y - of_int f
            in if d < 1/2 then f else if 1/2 < d then f + 1
               else if even f then f else f + 1)"

text \<open>
  \<open>bexp n e a\<close> searches upwards from \<open>e\<close>, at most \<open>n\<close> steps, for the first
  exponent \<open>k\<close> with \<open>a < 2 powi (k + 1)\<close>.
\<close>

fun bexp :: "nat \<Rightarrow> int \<Rightarrow> real \<Rightarrow> int" where
  "bexp 0 e a = e"
| "bexp (Suc n) e a = (if a < 2 powi (e + 1) then e else bexp n (e + 1) a)"

definition expo :: "real \<Rightarrow> int" where
  "expo x = bexp 253 (- 126) \<bar>x\<bar>"

definition ulp :: "real \<Rightarrow> real" where
  "ulp x = 2 powi (expo x - 23)"

definition fl :: "real \<Rightarrow> real" where
  "fl x = of_int (rhe (x / ulp x)) * ulp x"

definition is_f32 :: "real \<Rightarrow> bool" where
  "is_f32 v = (fl v = v)"

definition fadd :: "real \<Rightarrow> real \<Rightarrow> real" where
  "fadd a b = fl (a + b)"

definition fsub :: "real \<Rightarrow> real \<Rightarrow> real" where
  "fsub a b = fl (a - b)"

definition fmul :: "real \<Rightarrow> real \<Rightarrow> real" where
  "fmul a b = fl (a * b)"

definition fdiv :: "real \<Rightarrow> real \<Rightarrow> real" where
  "fdiv a b = fl (a / b)"

text \<open>The cast \<^verbatim>\<open>(int)v\<close> of a float truncates towards zero.\<close>

definition int_of_float :: "real \<Rightarrow> int" where
  "int_of_float v = (if 0 \<le> v then \<lfloor>v\<rfloor> else \<lceil>v\<rceil>)"

text \<open>The casts \<^verbatim>\<open>(float)n\<close> of an \<^verbatim>\<open>int\<close> and of a \<^verbatim>\<open>Uint32\<close> round.\<close>

definition float_of_int :: "int \<Rightarrow> real" where
  "float_of_int n = fl (of_int n)"

definition float_of_u32 :: "32 word \<Rightarrow> real" where
  "float_of_u32 n = fl (of_nat (unat n))"


section \<open>Configuration\<close>

definition WINDOW_WIDTH :: int where "WINDOW_WIDTH = 800"
definition WINDOW_HEIGHT :: int where "WINDOW_HEIGHT = 600"
definition TARGET_FPS :: nat where "TARGET_FPS = 60"
definition FRAME_TIME_MS :: nat where "FRAME_TIME_MS = 1000 div TARGET_FPS"
definition PLAYER_WIDTH :: real where "PLAYER_WIDTH = 80"
definition PLAYER_HEIGHT :: real where "PLAYER_HEIGHT = 20"
definition PLAYER_SPEED :: real where "PLAYER_SPEED = 500"
definition MAX_OBSTACLES :: nat where "MAX_OBSTACLES = 64"
definition OBSTACLE_MIN_WIDTH :: real where "OBSTACLE_MIN_WIDTH = 40"
definition OBSTACLE_MAX_WIDTH :: real where "OBSTACLE_MAX_WIDTH = 140"
definition OBSTACLE_HEIGHT :: real where "OBSTACLE_HEIGHT = 20"
definition OBSTACLE_BASE_SPEED :: real where "OBSTACLE_BASE_SPEED = 200"
definition OBSTACLE_SPEED_INCREMENT :: real where "OBSTACLE_SPEED_INCREMENT = fl (3 / 100)"
definition OBSTACLE_BASE_INTERVAL :: real where "OBSTACLE_BASE_INTERVAL = 700"
definition OBSTACLE_MIN_INTERVAL :: real where "OBSTACLE_MIN_INTERVAL = 140"
definition OBSTACLE_INTERVAL_DECAY :: real where "OBSTACLE_INTERVAL_DECAY = fl (985 / 1000)"


section \<open>Types\<close>

datatype GameState =
  GAME_STATE_MENU | GAME_STATE_PLAYING | GAME_STATE_PAUSED | GAME_STATE_GAME_OVER

text \<open>
  The \<^verbatim>\<open>int\<close> flags \<^verbatim>\<open>active\<close>, \<^verbatim>\<open>running\<close>, \<^verbatim>\<open>leftPressed\<close> and
  \<^verbatim>\<open>rightPressed\<close> only ever hold 0 or 1 and are only tested against zero: they are
  booleans here.
\<close>

record Obstacle =
  o_x :: real
  o_y :: real
  o_w :: real
  o_h :: real
  o_speed :: real
  o_active :: bool

record Player =
  p_x :: real
  p_y :: real
  p_w :: real
  p_h :: real
  p_speed :: real

text \<open>
  The \<^verbatim>\<open>Game\<close> structure without its window and renderer handles.  The fixed
  array of \<^verbatim>\<open>MAX_OBSTACLES\<close> slots is a list; \<^verbatim>\<open>score\<close> and \<^verbatim>\<open>highScore\<close> are
  mathematical integers (overflow of the C \<^verbatim>\<open>int\<close> is undefined and out of reach of
  the statements below).
\<close>

record Game =
  running :: bool
  state :: GameState
  player :: Player
  obstacles :: "Obstacle list"
  score :: int
  highScore :: int
  elapsedTime :: real
  lastSpawnTicks :: "32 word"
  spawnIntervalMs :: real
  leftPressed :: bool
  rightPressed :: bool

text \<open>
  The high-score file and the log of calls to \<^verbatim>\<open>save_high_score\<close>.  A file is
  absent, present without a readable integer, or holds one.
\<close>

datatype hs_file = NoFile | Unreadable | Stored int

datatype io_outcome = OpenFails | WriteFails | WriteOk

record World =
  hs_disk :: hs_file
  save_calls :: "int list"

datatype SDL_Keycode =
  SDLK_a | SDLK_LEFT | SDLK_d | SDLK_RIGHT | SDLK_RETURN | SDLK_KP_ENTER
  | SDLK_p | SDLK_ESCAPE | SDLK_other

datatype SDL_Event =
  SDL_QUIT | SDL_KEYDOWN bool SDL_Keycode | SDL_KEYUP SDL_Keycode | SDL_other_event

text \<open>
  What one call of \<^verbatim>\<open>update_game\<close> reads from outside the game structure: the
  clock at the spawn check, the clock inside \<^verbatim>\<open>spawn_obstacle\<close>, the two results
  of \<^verbatim>\<open>rand()\<close> (width first, then position), and how the file write goes.
\<close>

record TickInput =
  t_now :: "32 word"
  t_spawn_now :: "32 word"
  t_rand_w :: int
  t_rand_x :: int
  t_io :: io_outcome


section \<open>Utility functions\<close>

definition clampf :: "real \<Rightarrow> real \<Rightarrow> real \<Rightarrow> real" where
  "clampf v mn mx = (if v < mn then mn else if v > mx then mx else v)"

definition rects_intersect ::
  "real \<Rightarrow> real \<Rightarrow> real \<Rightarrow> real \<Rightarrow> real \<Rightarrow> real \<Rightarrow> real \<Rightarrow> real \<Rightarrow> bool" where
  "rects_intersect x1 y1 w1 h1 x2 y2 w2 h2 =
     (\<not> (x1 > fadd x2 w2 \<or>
         fadd x1 w1 < x2 \<or>
         y1 > fadd y2 h2 \<or>
         fadd y1 h1 < y2))"

text \<open>
  \<open>rand_range RM r mn mx\<close>: \<open>r\<close> is the result of \<^verbatim>\<open>rand()\<close>, between 0 and the
  C library's \<^verbatim>\<open>RAND_MAX\<close>, here the parameter \<open>RM\<close>.
\<close>

definition rand_range :: "int \<Rightarrow> int \<Rightarrow> real \<Rightarrow> real \<Rightarrow> real" where
  "rand_range RM r mn mx =
     (let t = fdiv (float_of_int r) (float_of_int RM)
      in fadd mn (fmul t (fsub mx mn)))"


section \<open>High score storage\<close>

definition load_high_score :: "hs_file \<Rightarrow> int" where
  "load_high_score f = (case f of NoFile \<Rightarrow> 0 | Unreadable \<Rightarrow> 0 | Stored v \<Rightarrow> v)"

text \<open>
  Opening with mode \<^verbatim>\<open>"wb"\<close> empties the file; a failed open leaves it as it was.
\<close>

definition save_high_score :: "io_outcome \<Rightarrow> int \<Rightarrow> World \<Rightarrow> World" where
  "save_high_score io sc w =
     \<lparr> hs_disk = (case io of OpenFails \<Rightarrow> hs_disk w
                           | WriteFails \<Rightarrow> Unreadable
                           | WriteOk \<Rightarrow> Stored sc),
       save_calls = save_calls w @ [sc] \<rparr>"


section \<open>Game setup\<close>

definition reset_obstacles :: "Game \<Rightarrow> Game" where
  "reset_obstacles g = g\<lparr>obstacles := map (\<lambda>ob. ob\<lparr>o_active := False\<rparr>) (obstacles g)\<rparr>"

definition init_player :: "Game \<Rightarrow> Game" where
  "init_player g =
     g\<lparr>player := (player g)\<lparr>
          p_w := PLAYER_WIDTH,
          p_h := PLAYER_HEIGHT,
          p_x := fdiv (fsub (float_of_int WINDOW_WIDTH) PLAYER_WIDTH) 2,
          p_y := fsub (fsub (float_of_int WINDOW_HEIGHT) PLAYER_HEIGHT) 40,
          p_speed := PLAYER_SPEED\<rparr>\<rparr>"

text \<open>\<open>ticks\<close> is what \<^verbatim>\<open>SDL_GetTicks()\<close> returns.\<close>

definition reset_gameplay :: "32 word \<Rightarrow> Game \<Rightarrow> Game" where
  "reset_gameplay ticks g =
     reset_obstacles (init_player
       (g\<lparr>score := 0, elapsedTime := 0,
          spawnIntervalMs := OBSTACLE_BASE_INTERVAL,
          lastSpawnTicks := ticks\<rparr>))"

text \<open>The structure after \<^verbatim>\<open>memset(game, 0, sizeof(Game))\<close>.\<close>

definition zero_obstacle :: Obstacle where
  "zero_obstacle = \<lparr> o_x = 0, o_y = 0, o_w = 0, o_h = 0, o_speed = 0, o_active = False \<rparr>"

definition zero_game :: Game where
  "zero_game =
     \<lparr> running = False, state = GAME_STATE_MENU,
       player = \<lparr> p_x = 0, p_y = 0, p_w = 0, p_h = 0, p_speed = 0 \<rparr>,
       obstacles = replicate MAX_OBSTACLES zero_obstacle,
       score = 0, highScore = 0, elapsedTime = 0, lastSpawnTicks = 0,
       spawnIntervalMs = 0, leftPressed = False, rightPressed = False \<rparr>"

text \<open>\<^verbatim>\<open>init_game\<close> once SDL has come up.\<close>

definition init_game :: "32 word \<Rightarrow> World \<Rightarrow> Game" where
  "init_game ticks w =
     reset_gameplay ticks
       (zero_game\<lparr>running := True, state := GAME_STATE_MENU,
                  leftPressed := False, rightPressed := False,
                  highScore := load_high_score (hs_disk w)\<rparr>)"


section \<open>Obstacle logic\<close>

text \<open>The scan for the first inactive slot.\<close>

fun first_inactive :: "Obstacle list \<Rightarrow> nat option" where
  "first_inactive [] = None"
| "first_inactive (ob # obs) =
     (if \<not> o_active ob then Some 0 else map_option Suc (first_inactive obs))"

definition spawn_obstacle :: "int \<Rightarrow> int \<Rightarrow> int \<Rightarrow> 32 word \<Rightarrow> Game \<Rightarrow> Game" where
  "spawn_obstacle RM r1 r2 ticks g =
     (case first_inactive (obstacles g) of
        None \<Rightarrow> g
      | Some idx \<Rightarrow>
          let w = rand_range RM r1 OBSTACLE_MIN_WIDTH OBSTACLE_MAX_WIDTH;
              h = OBSTACLE_HEIGHT;
              maxX = fsub (float_of_int WINDOW_WIDTH) w;
              x = rand_range RM r2 0 maxX;
              y = - h;
              speedBoost = fmul (fmul OBSTACLE_SPEED_INCREMENT (elapsedTime g))
                                OBSTACLE_BASE_SPEED;
              speed = fadd OBSTACLE_BASE_SPEED speedBoost;
              ob = \<lparr> o_x = x, o_y = y, o_w = w, o_h = h, o_speed = speed, o_active = True \<rparr>;
              interval = fmul (spawnIntervalMs g) OBSTACLE_INTERVAL_DECAY
          in g\<lparr>obstacles := (obstacles g)[idx := ob],
               lastSpawnTicks := ticks,
               spawnIntervalMs := (if interval < OBSTACLE_MIN_INTERVAL
                                   then OBSTACLE_MIN_INTERVAL else interval)\<rparr>)"

text \<open>The body of the loop of \<^verbatim>\<open>update_obstacles\<close> on one slot, and the loop.\<close>

definition update_one :: "real \<Rightarrow> Obstacle \<Rightarrow> int \<Rightarrow> Obstacle \<times> int" where
  "update_one dt ob sc =
     (if \<not> o_active ob then (ob, sc)
      else let ob1 = ob\<lparr>o_y := fadd (o_y ob) (fmul (o_speed ob) dt)\<rparr>
           in if o_y ob1 > float_of_int WINDOW_HEIGHT
              then (ob1\<lparr>o_active := False\<rparr>, sc + 10)
              else (ob1, sc))"

fun update_obstacles_loop :: "real \<Rightarrow> Obstacle list \<Rightarrow> int \<Rightarrow> Obstacle list \<times> int" where
  "update_obstacles_loop dt [] sc = ([], sc)"
| "update_obstacles_loop dt (ob # obs) sc =
     (let (ob', sc1) = update_one dt ob sc;
          (obs', sc2) = update_obstacles_loop dt obs sc1
      in (ob' # obs', sc2))"

definition update_obstacles :: "real \<Rightarrow> Game \<Rightarrow> Game" where
  "update_obstacles dt g =
     (let (obs', sc') = update_obstacles_loop dt (obstacles g) (score g)
      in g\<lparr>obstacles := obs', score := sc'\<rparr>)"

text \<open>
  For the statements about the score: an obstacle leaves the screen in a tick with
  time step \<open>dt\<close> when it is active and its new \<open>y\<close> is beyond the window height;
  \<open>dodged\<close> counts them.
\<close>

definition falls :: "real \<Rightarrow> Obstacle \<Rightarrow> bool" where
  "falls dt ob =
     (o_active ob \<and> fadd (o_y ob) (fmul (o_speed ob) dt) > float_of_int WINDOW_HEIGHT)"

definition dodged :: "real \<Rightarrow> Obstacle list \<Rightarrow> nat" where
  "dodged dt obs = length (filter (falls dt) obs)"

fun check_collisions_loop :: "Player \<Rightarrow> Obstacle list \<Rightarrow> bool" where
  "check_collisions_loop p [] = False"
| "check_collisions_loop p (ob # obs) =
     (if \<not> o_active ob then check_collisions_loop p obs
      else if rects_intersect (p_x p) (p_y p) (p_w p) (p_h p)
                              (o_x ob) (o_y ob) (o_w ob) (o_h ob)
      then True
      else check_collisions_loop p obs)"

definition check_collisions :: "Game \<Rightarrow> bool" where
  "check_collisions g = check_collisions_loop (player g) (obstacles g)"


section \<open>Input handling\<close>

fun handle_key_down :: "32 word \<Rightarrow> Game \<Rightarrow> SDL_Keycode \<Rightarrow> Game" where
  "handle_key_down ticks g SDLK_a = g\<lparr>leftPressed := True\<rparr>"
| "handle_key_down ticks g SDLK_LEFT = g\<lparr>leftPressed := True\<rparr>"
| "handle_key_down ticks g SDLK_d = g\<lparr>rightPressed := True\<rparr>"
| "handle_key_down ticks g SDLK_RIGHT = g\<lparr>rightPressed := True\<rparr>"
| "handle_key_down ticks g SDLK_RETURN =
     (if state g = GAME_STATE_MENU \<or> state g = GAME_STATE_GAME_OVER
      then (reset_gameplay ticks g)\<lparr>state := GAME_STATE_PLAYING\<rparr> else g)"
| "handle_key_down ticks g SDLK_KP_ENTER =
     (if state g = GAME_STATE_MENU \<or> state g = GAME_STATE_GAME_OVER
      then (reset_gameplay ticks g)\<lparr>state := GAME_STATE_PLAYING\<rparr> else g)"
| "handle_key_down ticks g SDLK_p =
     (if state g = GAME_STATE_PLAYING then g\<lparr>state := GAME_STATE_PAUSED\<rparr>
      else if state g = GAME_STATE_PAUSED then g\<lparr>state := GAME_STATE_PLAYING\<rparr>
      else g)"
| "handle_key_down ticks g SDLK_ESCAPE = g\<lparr>running := False\<rparr>"
| "handle_key_down ticks g SDLK_other = g"

fun handle_key_up :: "Game \<Rightarrow> SDL_Keycode \<Rightarrow> Game" where
  "handle_key_up g SDLK_a = g\<lparr>leftPressed := False\<rparr>"
| "handle_key_up g SDLK_LEFT = g\<lparr>leftPressed := False\<rparr>"
| "handle_key_up g SDLK_d = g\<lparr>rightPressed := False\<rparr>"
| "handle_key_up g SDLK_RIGHT = g\<lparr>rightPressed := False\<rparr>"
| "handle_key_up g k = g"

text \<open>One turn of the loop of \<^verbatim>\<open>process_events\<close>, and the loop over the queue.\<close>

fun process_event :: "32 word \<Rightarrow> Game \<Rightarrow> SDL_Event \<Rightarrow> Game" where
  "process_event ticks g SDL_QUIT = g\<lparr>running := False\<rparr>"
| "process_event ticks g (SDL_KEYDOWN rep key) =
     (if \<not> rep then handle_key_down ticks g key else g)"
| "process_event ticks g (SDL_KEYUP key) = handle_key_up g key"
| "process_event ticks g SDL_other_event = g"

fun process_events :: "32 word \<Rightarrow> Game \<Rightarrow> SDL_Event list \<Rightarrow> Game" where
  "process_events ticks g [] = g"
| "process_events ticks g (e # es) = process_events ticks (process_event ticks g e) es"


section \<open>Game update\<close>

definition update_player :: "real \<Rightarrow> Game \<Rightarrow> Game" where
  "update_player dt g =
     (let dir0 = 0;
          dir1 = (if leftPressed g then fsub dir0 1 else dir0);
          dir2 = (if rightPressed g then fadd dir1 1 else dir1);
          x1 = fadd (p_x (player g)) (fmul (fmul dir2 (p_speed (player g))) dt);
          x2 = clampf x1 0 (fsub (float_of_int WINDOW_WIDTH) (p_w (player g)))
      in g\<lparr>player := (player g)\<lparr>p_x := x2\<rparr>\<rparr>)"

text \<open>
  \<^verbatim>\<open>update_game\<close> up to and including the spawn check, that is, the game as
  \<^verbatim>\<open>check_collisions\<close> sees it.
\<close>

definition advance_world :: "int \<Rightarrow> TickInput \<Rightarrow> real \<Rightarrow> Game \<Rightarrow> Game" where
  "advance_world RM inp dt g =
     (let g1 = g\<lparr>elapsedTime := fadd (elapsedTime g) dt\<rparr>;
          g2 = g1\<lparr>score := score g1 + int_of_float (fmul dt 20)\<rparr>;
          g3 = update_player dt g2;
          g4 = update_obstacles dt g3;
          now = t_now inp
      in if float_of_u32 (now - lastSpawnTicks g4) \<ge> spawnIntervalMs g4
         then spawn_obstacle RM (t_rand_w inp) (t_rand_x inp) (t_spawn_now inp) g4
         else g4)"

definition update_game :: "int \<Rightarrow> TickInput \<Rightarrow> real \<Rightarrow> Game \<times> World \<Rightarrow> Game \<times> World" where
  "update_game RM inp dt gw =
     (case gw of (g, w) \<Rightarrow>
        if state g \<noteq> GAME_STATE_PLAYING then (g, w)
        else
          let g5 = advance_world RM inp dt g
          in if check_collisions g5
             then let g6 = g5\<lparr>state := GAME_STATE_GAME_OVER\<rparr>
                  in if score g6 > highScore g6
                     then (g6\<lparr>highScore := score g6\<rparr>,
                           save_high_score (t_io inp) (score g6) w)
                     else (g6, w)
             else (g5, w))"

text \<open>The time step of one turn of the main loop, from the two clock readings.\<close>

definition frame_dt :: "32 word \<Rightarrow> 32 word \<Rightarrow> real" where
  "frame_dt lastTicks currentTicks =
     (let deltaMs = currentTicks - lastTicks;
          dt = fdiv (float_of_u32 deltaMs) 1000
      in if dt > fl (1 / 10) then fl (1 / 10) else dt)"

text \<open>A run of ticks with one time step.\<close>

fun run_ticks :: "int \<Rightarrow> real \<Rightarrow> TickInput list \<Rightarrow> Game \<times> World \<Rightarrow> Game \<times> World" where
  "run_ticks RM dt [] gw = gw"
| "run_ticks RM dt (inp # inps) gw = run_ticks RM dt inps (update_game RM inp dt gw)"


text \<open>
  The main loop as a sequence of steps: an event handed to \<^verbatim>\<open>process_events\<close>
  (with the clock a reset would read), or a call of \<^verbatim>\<open>update_game\<close>.  A step
  starts a run when it is the press of Enter that resets the game; a tick spawns when
  the game is in PLAYING, the spawn is due and a slot is free once
  \<^verbatim>\<open>update_obstacles\<close> has run.
\<close>

datatype Step = EventStep "32 word" SDL_Event | TickStep TickInput real

fun step :: "int \<Rightarrow> Step \<Rightarrow> Game \<times> World \<Rightarrow> Game \<times> World" where
  "step RM (EventStep ticks e) gw = (process_event ticks (fst gw) e, snd gw)"
| "step RM (TickStep inp dt) gw = update_game RM inp dt gw"

fun run_steps :: "int \<Rightarrow> Step list \<Rightarrow> Game \<times> World \<Rightarrow> Game \<times> World" where
  "run_steps RM [] gw = gw"
| "run_steps RM (s # ss) gw = run_steps RM ss (step RM s gw)"

fun starts_run :: "Step \<Rightarrow> Game \<Rightarrow> bool" where
  "starts_run (EventStep ticks (SDL_KEYDOWN rep key)) g =
     (\<not> rep \<and> (key = SDLK_RETURN \<or> key = SDLK_KP_ENTER) \<and>
      (state g = GAME_STATE_MENU \<or> state g = GAME_STATE_GAME_OVER))"
| "starts_run s g = False"

fun spawns :: "Step \<Rightarrow> Game \<Rightarrow> bool" where
  "spawns (TickStep inp dt) g =
     (state g = GAME_STATE_PLAYING \<and>
      spawnIntervalMs g \<le> float_of_u32 (t_now inp - lastSpawnTicks g) \<and>
      first_inactive (obstacles (update_obstacles dt g)) \<noteq> None)"
| "spawns s g = False"

fun same_run :: "int \<Rightarrow> Step list \<Rightarrow> Game \<times> World \<Rightarrow> bool" where
  "same_run RM [] gw = True"
| "same_run RM (s # ss) gw = (\<not> starts_run s (fst gw) \<and> same_run RM ss (step RM s gw))"

definition interval_ok :: "Game \<Rightarrow> bool" where
  "interval_ok g = (is_f32 (spawnIntervalMs g) \<and> OBSTACLE_MIN_INTERVAL \<le> spawnIntervalMs g)"



section \<open>Concrete games\<close>

text \<open>
  The game as \<^verbatim>\<open>init_game\<close> leaves it when there is no high-score file, the same
  game once Enter has started a run, and variations of that run: every slot of the
  pool taken; an obstacle on top of the player, with a score of 5 and a high score of
  0 or of 9; the player at the left edge with the left key held.  \<open>idle_input\<close> is a
  tick at the time of the last spawn, so that no spawn is due; \<open>spawn_input\<close> is a
  tick one second later, when one is; \<open>sample_steps\<close> is a tick that spawns, a pause,
  a resume and a second tick.
\<close>

definition menu_game :: Game where
  "menu_game = init_game 0 \<lparr> hs_disk = NoFile, save_calls = [] \<rparr>"

definition playing_game :: Game where
  "playing_game = handle_key_down 1000 menu_game SDLK_RETURN"

definition full_game :: Game where
  "full_game = playing_game\<lparr>obstacles :=
     replicate MAX_OBSTACLES
       \<lparr> o_x = 100, o_y = 50, o_w = 60, o_h = 20, o_speed = 200, o_active = True \<rparr>\<rparr>"

definition hit_obstacle :: Obstacle where
  "hit_obstacle = \<lparr> o_x = 360, o_y = 530, o_w = 80, o_h = 20, o_speed = 200, o_active = True \<rparr>"

definition collide_game :: Game where
  "collide_game = playing_game\<lparr>obstacles := hit_obstacle # replicate 63 zero_obstacle, score := 5\<rparr>"

definition champion_game :: Game where
  "champion_game = collide_game\<lparr>highScore := 9\<rparr>"

definition idle_input :: TickInput where
  "idle_input = \<lparr> t_now = 1000, t_spawn_now = 1000, t_rand_w = 0, t_rand_x = 0, t_io = WriteOk \<rparr>"

definition empty_world :: World where
  "empty_world = \<lparr> hs_disk = NoFile, save_calls = [] \<rparr>"

definition spawn_input :: TickInput where
  "spawn_input = \<lparr> t_now = 2000, t_spawn_now = 2001, t_rand_w = 12345, t_rand_x = 67890,
                   t_io = WriteOk \<rparr>"

definition sample_steps :: "Step list" where
  "sample_steps =
     [TickStep spawn_input 0,
      EventStep 3000 (SDL_KEYDOWN False SDLK_p),
      EventStep 3001 (SDL_KEYUP SDLK_p),
      EventStep 4000 (SDL_KEYDOWN False SDLK_p),
      TickStep spawn_input 0]"

definition edge_game :: Game where
  "edge_game = playing_game\<lparr>player := (player playing_game)\<lparr>p_x := 0\<rparr>, leftPressed := True\<rparr>"

section \<open>Properties of rounding\<close>

lemma rhe_of_int: "rhe (of_int n) = n"
  by (simp add: rhe_def)

lemma rhe_cases: "rhe y = \<lfloor>y\<rfloor> \<or> rhe y = \<lfloor>y\<rfloor> + 1"
  by (simp add: rhe_def Let_def)

lemma rhe_mono: "a \<le> b \<Longrightarrow> rhe a \<le> rhe b"
proof -
  assume ab: "a \<le> b"
  have fab: "\<lfloor>a\<rfloor> \<le> \<lfloor>b\<rfloor>" using ab by (rule floor_mono)
  show ?thesis
  proof (cases "\<lfloor>a\<rfloor> = \<lfloor>b\<rfloor>")
    case True
    then show ?thesis using ab by (auto simp: rhe_def Let_def)
  next
    case False
    then have "\<lfloor>a\<rfloor> + 1 \<le> \<lfloor>b\<rfloor>" using fab by simp
    moreover have "rhe a \<le> \<lfloor>a\<rfloor> + 1" using rhe_cases[of a] by auto
    moreover have "\<lfloor>b\<rfloor> \<le> rhe b" using rhe_cases[of b] by auto
    ultimately show ?thesis by linarith
  qed
qed

lemma rhe_minus: "rhe (- y) = - rhe y"
proof (cases "y \<in> \<int>")
  case True
  then obtain n where "y = of_int n" by (auto elim: Ints_cases)
  then show ?thesis using rhe_of_int[of n] rhe_of_int[of "-n"] by simp
next
  case False
  have d: "y - of_int \<lfloor>y\<rfloor> \<noteq> 0"
  proof
    assume "y - of_int \<lfloor>y\<rfloor> = 0"
    then have "y = of_int \<lfloor>y\<rfloor>" by simp
    then have "y \<in> \<int>" using Ints_of_int[of "\<lfloor>y\<rfloor>", where 'a = real] by simp
    then show False using False by simp
  qed
  then have f: "\<lfloor>- y\<rfloor> = - \<lfloor>y\<rfloor> - 1"
    by (simp add: ceiling_altdef floor_minus)
  show ?thesis
    unfolding rhe_def Let_def f using d by (auto simp: algebra_simps)
qed

lemma rhe_err: "\<bar>of_int (rhe y) - y\<bar> \<le> 1/2"
  unfolding rhe_def Let_def by (auto; linarith)

lemma bexp_ge_le_aux: "e \<le> bexp n e a \<and> bexp n e a \<le> e + int n"
proof (induction n arbitrary: e)
  case 0
  then show ?case by simp
next
  case (Suc n)
  have "e + 1 \<le> bexp n (e + 1) a \<and> bexp n (e + 1) a \<le> e + 1 + int n"
    by (rule Suc.IH)
  then show ?case by auto
qed

lemma bexp_ge: "e \<le> bexp n e a"
proof (induction n arbitrary: e)
  case 0
  then show ?case by simp
next
  case (Suc n)
  have "e + 1 \<le> bexp n (e + 1) a" and "bexp n (e + 1) a \<le> e + 1 + int n"
    using bexp_ge_le_aux by auto
  then show ?case by auto
qed

lemma bexp_le: "bexp n e a \<le> e + int n"
proof (induction n arbitrary: e)
  case 0
  then show ?case by simp
next
  case (Suc n)
  have "e + 1 \<le> bexp n (e + 1) a" and "bexp n (e + 1) a \<le> e + 1 + int n"
    using bexp_ge_le_aux by auto
  then show ?case by auto
qed

lemma bexp_upper: "bexp n e a < e + int n \<Longrightarrow> a < 2 powi (bexp n e a + 1)"
  by (induction n arbitrary: e) (auto split: if_splits)

lemma bexp_lower: "e < bexp n e a \<Longrightarrow> 2 powi (bexp n e a) \<le> a"
proof (induction n arbitrary: e)
  case 0
  then show ?case by simp
next
  case (Suc n)
  show ?case
  proof (cases "a < 2 powi (e + 1)")
    case True
    then show ?thesis using Suc.prems by simp
  next
    case False
    show ?thesis
    proof (cases "e + 1 < bexp n (e + 1) a")
      case True
      then show ?thesis using Suc.IH[of "e + 1"] False by simp
    next
      case nl: False
      then have "bexp n (e + 1) a = e + 1" using bexp_ge[of "e + 1" n a] by simp
      then show ?thesis using False by simp
    qed
  qed
qed

lemma bexp_mono: "a \<le> b \<Longrightarrow> bexp n e a \<le> bexp n e b"
proof (induction n arbitrary: e)
  case 0
  then show ?case by simp
next
  case (Suc n)
  then show ?case
    using bexp_ge[of "e + 1" n b] by (auto intro: order_trans)
qed

lemma bexp_unique:
  "e \<le> k \<Longrightarrow> k \<le> e + int n \<Longrightarrow> (k = e \<or> 2 powi k \<le> a) \<Longrightarrow>
   (k = e + int n \<or> a < 2 powi (k + 1)) \<Longrightarrow> bexp n e a = k"
proof (induction n arbitrary: e)
  case 0
  then show ?case by simp
next
  case (Suc n)
  show ?case
  proof (cases "a < 2 powi (e + 1)")
    case True
    have "k = e"
    proof (rule ccontr)
      assume "k \<noteq> e"
      then have "e + 1 \<le> k" and "2 powi k \<le> a" using Suc.prems by auto
      then have "(2::real) powi (e + 1) \<le> 2 powi k" by (intro power_int_increasing) auto
      then show False using True \<open>2 powi k \<le> a\<close> by linarith
    qed
    then show ?thesis using True by simp
  next
    case False
    have "k \<noteq> e"
    proof
      assume "k = e"
      then show False using Suc.prems False by auto
    qed
    then have "bexp n (e + 1) a = k"
      using Suc.prems by (intro Suc.IH) auto
    then show ?thesis using False by simp
  qed
qed


lemma expo_range: "- 126 \<le> expo x \<and> expo x \<le> 127"
  using bexp_ge[of "- 126" 253 "\<bar>x\<bar>"] bexp_le[of 253 "- 126" "\<bar>x\<bar>"]
  by (simp add: expo_def)

lemma expo_minus: "expo (- x) = expo x"
  by (simp add: expo_def)

lemma expo_upper: "expo x < 127 \<Longrightarrow> \<bar>x\<bar> < 2 powi (expo x + 1)"
  using bexp_upper[of 253 "- 126" "\<bar>x\<bar>"] by (simp add: expo_def)

lemma expo_lower: "- 126 < expo x \<Longrightarrow> 2 powi (expo x) \<le> \<bar>x\<bar>"
  using bexp_lower[of "- 126" 253 "\<bar>x\<bar>"] by (simp add: expo_def)

lemma expo_mono: "\<bar>a\<bar> \<le> \<bar>b\<bar> \<Longrightarrow> expo a \<le> expo b"
  by (simp add: expo_def bexp_mono)

lemma expo_eq:
  "- 126 \<le> k \<Longrightarrow> k \<le> 127 \<Longrightarrow> (k = - 126 \<or> 2 powi k \<le> \<bar>x\<bar>) \<Longrightarrow>
   (k = 127 \<or> \<bar>x\<bar> < 2 powi (k + 1)) \<Longrightarrow> expo x = k"
  unfolding expo_def by (rule bexp_unique) auto

lemma ulp_pos: "0 < ulp x"
  by (simp add: ulp_def)

lemma ulp_minus: "ulp (- x) = ulp x"
  by (simp add: ulp_def expo_minus)

lemma pow_ulp_23: "(2::real) powi (e - 23) * 8388608 = 2 powi e"
proof -
  have "(2::real) powi (e - 23) * 2 powi 23 = 2 powi (e - 23 + 23)"
    by (subst power_int_add) auto
  then show ?thesis by simp
qed

lemma pow_ulp_24: "(2::real) powi (e - 23) * 16777216 = 2 powi (e + 1)"
proof -
  have "(2::real) powi (e - 23) * 2 powi 24 = 2 powi (e - 23 + 24)"
    by (subst power_int_add) auto
  moreover have "e - 23 + 24 = e + 1" by simp
  ultimately show ?thesis by simp
qed

lemma fl_minus: "fl (- x) = - fl x"
  by (simp add: fl_def ulp_minus rhe_minus)

lemma fl_0: "fl 0 = 0"
  by (simp add: fl_def rhe_def)

lemma fl_eq:
  "- 126 \<le> k \<Longrightarrow> k \<le> 127 \<Longrightarrow> (k = - 126 \<or> 2 powi k \<le> \<bar>x\<bar>) \<Longrightarrow>
   (k = 127 \<or> \<bar>x\<bar> < 2 powi (k + 1)) \<Longrightarrow>
   fl x = of_int (rhe (x / 2 powi (k - 23))) * 2 powi (k - 23)"
  using expo_eq[of k x] by (simp add: fl_def ulp_def)

lemma fl_on_grid: "x = of_int j * ulp x \<Longrightarrow> fl x = x"
proof -
  assume a: "x = of_int j * ulp x"
  have "x / ulp x = of_int j" using a ulp_pos[of x]
    by (metis less_irrefl nonzero_mult_div_cancel_right)
  then show ?thesis using a by (simp add: fl_def rhe_of_int)
qed

lemma fl_nonneg: "0 \<le> x \<Longrightarrow> 0 \<le> fl x"
proof -
  assume "0 \<le> x"
  then have "0 \<le> x / ulp x" using ulp_pos[of x] by simp
  then have "rhe 0 \<le> rhe (x / ulp x)" by (rule rhe_mono)
  then have "0 \<le> rhe (x / ulp x)" using rhe_of_int[of 0] by simp
  then show ?thesis using ulp_pos[of x] by (simp add: fl_def)
qed

lemma fl_upper_bound:
  assumes "0 \<le> x" "expo x < 127"
  shows "fl x \<le> 2 powi (expo x + 1)"
proof -
  have "x < 2 powi (expo x + 1)" using expo_upper[OF assms(2)] assms(1) by simp
  then have "x < ulp x * 16777216" by (simp only: ulp_def pow_ulp_24)
  then have "x / ulp x \<le> of_int 16777216" using ulp_pos[of x]
    by (simp add: pos_divide_le_eq mult.commute)
  then have "rhe (x / ulp x) \<le> rhe (of_int 16777216)" by (rule rhe_mono)
  then have "rhe (x / ulp x) \<le> 16777216" by (simp only: rhe_of_int)
  then have "of_int (rhe (x / ulp x)) \<le> (16777216 :: real)" by linarith
  then have "fl x \<le> ulp x * 16777216" using ulp_pos[of x] by (simp add: fl_def)
  then show ?thesis by (simp only: ulp_def pow_ulp_24)
qed

lemma fl_lower_bound:
  assumes "0 \<le> x" "- 126 < expo x"
  shows "2 powi (expo x) \<le> fl x"
proof -
  have "2 powi (expo x) \<le> x" using expo_lower[OF assms(2)] assms(1) by simp
  then have "ulp x * 8388608 \<le> x" by (simp only: ulp_def pow_ulp_23)
  then have "of_int 8388608 \<le> x / ulp x" using ulp_pos[of x]
    by (simp add: pos_le_divide_eq mult.commute)
  then have "rhe (of_int 8388608) \<le> rhe (x / ulp x)" by (rule rhe_mono)
  then have "8388608 \<le> rhe (x / ulp x)" by (simp only: rhe_of_int)
  then have "(8388608 :: real) \<le> of_int (rhe (x / ulp x))" by linarith
  then have "ulp x * 8388608 \<le> fl x" using ulp_pos[of x] by (simp add: fl_def)
  then show ?thesis by (simp only: ulp_def pow_ulp_23)
qed

lemma fl_mono_nonneg:
  assumes "0 \<le> x" "x \<le> y"
  shows "fl x \<le> fl y"
proof -
  have y0: "0 \<le> y" using assms by simp
  have le: "expo x \<le> expo y" using assms by (intro expo_mono) simp
  show ?thesis
  proof (cases "expo x = expo y")
    case True
    then have u: "ulp x = ulp y" by (simp add: ulp_def)
    have "x / ulp y \<le> y / ulp y" using assms(2) ulp_pos[of y]
      by (simp add: divide_right_mono)
    then have "rhe (x / ulp y) \<le> rhe (y / ulp y)" by (rule rhe_mono)
    then show ?thesis using ulp_pos[of y] by (simp add: fl_def u)
  next
    case False
    then have lt: "expo x < expo y" using le by simp
    have "expo x < 127" using lt expo_range[of y] by simp
    then have a: "fl x \<le> 2 powi (expo x + 1)" using assms(1) by (rule fl_upper_bound[rotated])
    have "- 126 < expo y" using lt expo_range[of x] by simp
    then have b: "2 powi (expo y) \<le> fl y" using y0 by (rule fl_lower_bound[rotated])
    have "(2::real) powi (expo x + 1) \<le> 2 powi (expo y)"
      using lt by (intro power_int_increasing) auto
    then show ?thesis using a b by linarith
  qed
qed

lemma fl_mono: "x \<le> y \<Longrightarrow> fl x \<le> fl y"
proof -
  assume xy: "x \<le> y"
  show ?thesis
  proof (cases "0 \<le> x")
    case True
    then show ?thesis using xy by (rule fl_mono_nonneg)
  next
    case xneg: False
    show ?thesis
    proof (cases "0 \<le> y")
      case True
      have "0 \<le> fl (- x)" using xneg by (intro fl_nonneg) simp
      then have "fl x \<le> 0" by (simp add: fl_minus)
      moreover have "0 \<le> fl y" using True by (rule fl_nonneg)
      ultimately show ?thesis by simp
    next
      case False
      then have "fl (- y) \<le> fl (- x)" using xy by (intro fl_mono_nonneg) auto
      then show ?thesis by (simp add: fl_minus)
    qed
  qed
qed

lemma fl_idem_nonneg:
  assumes x0: "0 \<le> x"
  shows "fl (fl x) = fl x"
proof -
  define e where "e = expo x"
  define m where "m = rhe (x / ulp x)"
  have v: "fl x = of_int m * 2 powi (e - 23)" by (simp add: fl_def m_def ulp_def e_def)
  have v0: "0 \<le> fl x" using x0 by (rule fl_nonneg)
  have er: "- 126 \<le> e" "e \<le> 127" using expo_range[of x] by (simp_all add: e_def)
  show ?thesis
  proof (cases "e < 127 \<and> 2 powi (e + 1) \<le> fl x")
    case True
    then have "fl x \<le> 2 powi (e + 1)" using fl_upper_bound[OF x0] by (simp add: e_def)
    then have eq: "fl x = 2 powi (e + 1)" using True by simp
    have "(2::real) powi (e + 1) < 2 powi (e + 1 + 1)"
      by (intro power_int_strict_increasing) auto
    then have ex: "expo (fl x) = e + 1"
      using True er by (intro expo_eq) (auto simp: eq)
    have u: "ulp (fl x) = 2 powi (e + 1 - 23)" by (simp only: ulp_def ex)
    have "of_int 8388608 * ulp (fl x) = 2 powi (e + 1 - 23) * 8388608"
      by (simp only: u of_int_numeral mult.commute)
    also have "\<dots> = 2 powi (e + 1)" by (rule pow_ulp_23)
    finally have "fl x = of_int 8388608 * ulp (fl x)" using eq by simp
    then show ?thesis by (rule fl_on_grid)
  next
    case False
    have lo: "e = - 126 \<or> 2 powi e \<le> \<bar>fl x\<bar>"
    proof (cases "e = - 126")
      case True
      then show ?thesis by simp
    next
      case False
      then have "- 126 < expo x" using er by (simp add: e_def)
      then have "2 powi e \<le> fl x" using fl_lower_bound[OF x0] by (simp add: e_def)
      then show ?thesis using v0 by simp
    qed
    have hi: "e = 127 \<or> \<bar>fl x\<bar> < 2 powi (e + 1)"
      using False v0 er by auto
    have ex: "expo (fl x) = e" using er lo hi by (intro expo_eq) auto
    have "ulp (fl x) = 2 powi (e - 23)" by (simp only: ulp_def ex)
    then have "fl x = of_int m * ulp (fl x)" using v by (simp only:)
    then show ?thesis by (rule fl_on_grid)
  qed
qed

lemma fl_idem: "fl (fl x) = fl x"
proof (cases "0 \<le> x")
  case True
  then show ?thesis by (rule fl_idem_nonneg)
next
  case False
  then have "fl (fl (- x)) = fl (- x)" by (intro fl_idem_nonneg) simp
  then show ?thesis by (simp add: fl_minus)
qed

lemma fl_err: "\<bar>fl x - x\<bar> \<le> ulp x / 2"
proof -
  have "fl x - x = (of_int (rhe (x / ulp x)) - x / ulp x) * ulp x"
    using ulp_pos[of x] by (simp add: fl_def algebra_simps)
  then have "\<bar>fl x - x\<bar> = \<bar>of_int (rhe (x / ulp x)) - x / ulp x\<bar> * ulp x"
    using ulp_pos[of x] by (simp add: abs_mult)
  also have "\<dots> \<le> (1/2) * ulp x"
    using rhe_err[of "x / ulp x"] ulp_pos[of x] by (intro mult_right_mono) auto
  finally show ?thesis by simp
qed

lemma f32_grid:
  assumes "is_f32 v" "expo v = k"
  shows "\<exists>j::int. v = of_int j * 2 powi (k - 23)"
proof -
  have "v = of_int (rhe (v / ulp v)) * 2 powi (k - 23)"
    using assms by (simp add: is_f32_def fl_def ulp_def)
  then show ?thesis by blast
qed

lemma is_f32_fl: "is_f32 (fl x)"
  by (simp add: is_f32_def fl_idem)

lemma expo_two24: "expo 16777216 = 24"
  by (rule expo_eq) simp_all

lemma fl_of_nonneg_int:
  assumes "0 \<le> n" "n \<le> 16777216"
  shows "fl (of_int n) = of_int n"
proof (cases "n = 0")
  case True
  then show ?thesis by (simp add: fl_0)
next
  case False
  define k where "k = expo (of_int n)"
  have "\<bar>real_of_int n\<bar> \<le> \<bar>16777216\<bar>" using assms by simp
  then have "expo (of_int n) \<le> expo 16777216" by (rule expo_mono)
  then have k24: "k \<le> 24" by (simp add: k_def expo_two24)
  have kr: "- 126 \<le> k" using expo_range[of "of_int n"] by (simp add: k_def)
  show ?thesis
  proof (cases "k \<le> 23")
    case True
    define j where "j = n * 2 ^ nat (23 - k)"
    have "(2::real) powi (23 - k) * 2 powi (k - 23) = 2 powi ((23 - k) + (k - 23))"
      by (subst power_int_add) auto
    then have one: "(2::real) ^ nat (23 - k) * 2 powi (k - 23) = 1"
      using True by (simp add: power_int_def)
    have "of_int j * ulp (of_int n) = of_int n * ((2::real) ^ nat (23 - k) * 2 powi (k - 23))"
      by (simp add: j_def ulp_def k_def)
    then have "of_int n = of_int j * ulp (of_int n)" by (simp only: one mult_1_right)
    then show ?thesis by (rule fl_on_grid)
  next
    case False
    then have k: "k = 24" using k24 by simp
    then have "2 powi 24 \<le> \<bar>real_of_int n\<bar>"
      using expo_lower[of "of_int n"] by (simp add: k_def)
    then have "real_of_int n = 16777216" using assms by simp
    moreover have "ulp 16777216 = 2" by (simp add: ulp_def expo_two24)
    ultimately have "of_int n = of_int 8388608 * ulp (of_int n)" by simp
    then show ?thesis by (rule fl_on_grid)
  qed
qed

lemma fl_of_int: "\<bar>n\<bar> \<le> 16777216 \<Longrightarrow> fl (of_int n) = of_int n"
proof (cases "0 \<le> n")
  case True
  assume "\<bar>n\<bar> \<le> 16777216"
  then show ?thesis using True by (intro fl_of_nonneg_int) auto
next
  case False
  assume "\<bar>n\<bar> \<le> 16777216"
  then have "fl (of_int (- n)) = of_int (- n)" using False by (intro fl_of_nonneg_int) auto
  then show ?thesis by (simp add: fl_minus)
qed

lemma fl_numeral: "numeral n \<le> (16777216::int) \<Longrightarrow> fl (numeral n) = numeral n"
  using fl_of_int[of "numeral n"] by simp

lemma fl_1: "fl 1 = 1"
  using fl_of_int[of 1] by simp


section \<open>Collision test\<close>

lemmas consts_defs = WINDOW_WIDTH_def WINDOW_HEIGHT_def PLAYER_WIDTH_def PLAYER_HEIGHT_def
  PLAYER_SPEED_def MAX_OBSTACLES_def OBSTACLE_MIN_WIDTH_def OBSTACLE_MAX_WIDTH_def
  OBSTACLE_HEIGHT_def OBSTACLE_BASE_SPEED_def OBSTACLE_BASE_INTERVAL_def
  OBSTACLE_MIN_INTERVAL_def

lemmas fops_defs = fadd_def fsub_def fmul_def fdiv_def float_of_int_def

text \<open>
  C1, as the code has it.  \<^verbatim>\<open>rects_intersect\<close> answers false only when one
  rectangle lies strictly beyond the other on some axis, so it is the overlap test of
  closed intervals: rectangles that share exactly an edge, and overlap or touch on the
  other axis, are reported as intersecting.
\<close>

theorem rects_intersect_closed:
  "rects_intersect x1 y1 w1 h1 x2 y2 w2 h2 =
     (x1 \<le> fadd x2 w2 \<and> x2 \<le> fadd x1 w1 \<and> y1 \<le> fadd y2 h2 \<and> y2 \<le> fadd y1 h1)"
  by (auto simp: rects_intersect_def)

text \<open>
  C1 as the specification states it fails: a player at \<open>x = 100\<close> and an obstacle
  with \<open>x + w = 20 + 80 = 100\<close> touch along a vertical edge, and a player with
  \<open>y + h = 540 + 20\<close> and an obstacle at \<open>y = 560\<close> touch along a horizontal edge;
  both pairs are reported as intersecting.
\<close>

theorem touching_edges_intersect:
  "(100::real) = 20 + 80 \<and> rects_intersect 100 540 80 20 20 530 80 20 \<noteq> False \<and>
   (540::real) + 20 = 560 \<and> rects_intersect 100 540 80 20 100 560 80 20 \<noteq> False"
  by (simp add: rects_intersect_def fadd_def fl_numeral)


section \<open>Run reset and the state machine\<close>

lemma init_player_values:
  "player (init_player g) =
     \<lparr> p_x = 360, p_y = 540, p_w = 80, p_h = 20, p_speed = 500 \<rparr>"
  by (simp add: init_player_def consts_defs fops_defs fl_numeral)

lemma reset_gameplay_fields:
  "score (reset_gameplay t g) = 0"
  "elapsedTime (reset_gameplay t g) = 0"
  "spawnIntervalMs (reset_gameplay t g) = OBSTACLE_BASE_INTERVAL"
  "lastSpawnTicks (reset_gameplay t g) = t"
  "player (reset_gameplay t g) = \<lparr> p_x = 360, p_y = 540, p_w = 80, p_h = 20, p_speed = 500 \<rparr>"
  "\<forall>ob \<in> set (obstacles (reset_gameplay t g)). \<not> o_active ob"
  "state (reset_gameplay t g) = state g"
  "highScore (reset_gameplay t g) = highScore g"
  "length (obstacles (reset_gameplay t g)) = length (obstacles g)"
  using init_player_values[of "g\<lparr>score := 0, elapsedTime := 0,
          spawnIntervalMs := OBSTACLE_BASE_INTERVAL, lastSpawnTicks := t\<rparr>"]
  by (simp_all add: reset_gameplay_def reset_obstacles_def init_player_def)

lemma key_down_state:
  "state (handle_key_down t g k) =
     (if (k = SDLK_RETURN \<or> k = SDLK_KP_ENTER) \<and>
         (state g = GAME_STATE_MENU \<or> state g = GAME_STATE_GAME_OVER)
      then GAME_STATE_PLAYING
      else if k = SDLK_p \<and> state g = GAME_STATE_PLAYING then GAME_STATE_PAUSED
      else if k = SDLK_p \<and> state g = GAME_STATE_PAUSED then GAME_STATE_PLAYING
      else state g)"
  by (cases k) simp_all

lemma key_down_confirm:
  assumes "k = SDLK_RETURN \<or> k = SDLK_KP_ENTER"
    and "state g = GAME_STATE_MENU \<or> state g = GAME_STATE_GAME_OVER"
  shows "handle_key_down t g k = (reset_gameplay t g)\<lparr>state := GAME_STATE_PLAYING\<rparr>"
  using assms by auto

lemma key_down_noop:
  assumes "((k = SDLK_RETURN \<or> k = SDLK_KP_ENTER) \<and>
            (state g = GAME_STATE_PLAYING \<or> state g = GAME_STATE_PAUSED)) \<or>
           (k = SDLK_p \<and> (state g = GAME_STATE_MENU \<or> state g = GAME_STATE_GAME_OVER))"
  shows "handle_key_down t g k = g"
  using assms by auto

lemma key_up_state: "state (handle_key_up g k) = state g"
  by (cases k) simp_all

lemma update_game_idle:
  "state g \<noteq> GAME_STATE_PLAYING \<Longrightarrow> update_game RM inp dt (g, w) = (g, w)"
  by (simp add: update_game_def)

lemma menu_game_state: "state menu_game = GAME_STATE_MENU"
  by (simp add: menu_game_def init_game_def reset_gameplay_fields zero_game_def)

lemma playing_game_eq:
  "playing_game = (reset_gameplay 1000 menu_game)\<lparr>state := GAME_STATE_PLAYING\<rparr>"
  by (simp add: playing_game_def menu_game_state)


section \<open>Spawning\<close>

lemma first_inactive_None: "first_inactive obs = None \<longleftrightarrow> (\<forall>ob \<in> set obs. o_active ob)"
  by (induction obs) auto

text \<open>
  C5.  When every slot of the pool is active (whatever the length of the pool, 64 in
  the program), \<^verbatim>\<open>spawn_obstacle\<close> returns the game it was given: no slot, no
  interval, no timestamp changes, and there is no error to signal.
\<close>

theorem spawn_on_full_pool_is_noop:
  "(\<forall>ob \<in> set (obstacles g). o_active ob) \<Longrightarrow> spawn_obstacle RM r1 r2 ticks g = g"
  by (simp add: spawn_obstacle_def first_inactive_None[symmetric])

theorem spawn_on_full_pool_is_noop_witness:
  "length (obstacles full_game) = 64 \<and> list_all o_active (obstacles full_game) \<and>
   spawn_obstacle 2147483647 12345 67890 2000 full_game = full_game"
proof -
  have h: "\<forall>ob \<in> set (obstacles full_game). o_active ob"
    by (simp add: full_game_def)
  show ?thesis
    using h spawn_on_full_pool_is_noop[OF h, of 2147483647 12345 67890 2000]
    by (simp add: full_game_def MAX_OBSTACLES_def list_all_iff)
qed

section \<open>Ticks and transitions\<close>

lemma update_game_state:
  "state g = GAME_STATE_PLAYING \<Longrightarrow>
   state (fst (update_game RM inp dt (g, w))) =
     (if check_collisions (advance_world RM inp dt g) then GAME_STATE_GAME_OVER
      else state (advance_world RM inp dt g))"
  by (simp add: update_game_def Let_def)

lemma update_player_fields:
  "state (update_player dt g) = state g"
  "highScore (update_player dt g) = highScore g"
  "score (update_player dt g) = score g"
  "obstacles (update_player dt g) = obstacles g"
  "spawnIntervalMs (update_player dt g) = spawnIntervalMs g"
  "lastSpawnTicks (update_player dt g) = lastSpawnTicks g"
  "elapsedTime (update_player dt g) = elapsedTime g"
  by (simp_all add: update_player_def Let_def)

lemma update_obstacles_fields:
  "state (update_obstacles dt g) = state g"
  "highScore (update_obstacles dt g) = highScore g"
  "player (update_obstacles dt g) = player g"
  "spawnIntervalMs (update_obstacles dt g) = spawnIntervalMs g"
  "lastSpawnTicks (update_obstacles dt g) = lastSpawnTicks g"
  "elapsedTime (update_obstacles dt g) = elapsedTime g"
  by (simp_all add: update_obstacles_def split: prod.splits)

lemma spawn_obstacle_fields:
  "state (spawn_obstacle RM r1 r2 t g) = state g"
  "highScore (spawn_obstacle RM r1 r2 t g) = highScore g"
  "player (spawn_obstacle RM r1 r2 t g) = player g"
  "score (spawn_obstacle RM r1 r2 t g) = score g"
  "elapsedTime (spawn_obstacle RM r1 r2 t g) = elapsedTime g"
  by (simp_all add: spawn_obstacle_def Let_def split: option.splits)

lemma advance_world_fields:
  "state (advance_world RM inp dt g) = state g"
  "highScore (advance_world RM inp dt g) = highScore g"
  "player (advance_world RM inp dt g) = player (update_player dt g)"
  "elapsedTime (advance_world RM inp dt g) = fadd (elapsedTime g) dt"
  by (simp_all add: advance_world_def Let_def spawn_obstacle_fields update_obstacles_fields
      update_player_fields, simp add: update_player_def Let_def)

text \<open>
  C2.  The state after a key press is given by the table below: Enter (either key)
  leads from MENU and from GAME_OVER to PLAYING, P toggles PLAYING and PAUSED, and
  every other pair of state and key leaves the state as it was.  Releasing a key never
  changes the state.  Enter in MENU or GAME_OVER resets the whole run (score, elapsed
  time, spawn interval, spawn timestamp, player, every obstacle slot inactive); Enter
  in PLAYING or PAUSED and P in MENU or GAME_OVER return the game unchanged.  A tick
  outside PLAYING changes nothing, and a tick in PLAYING leaves PLAYING only for
  GAME_OVER, exactly when a collision is found.
\<close>

theorem fsm_transitions:
  "state (handle_key_down t g k) =
     (if (k = SDLK_RETURN \<or> k = SDLK_KP_ENTER) \<and>
         (state g = GAME_STATE_MENU \<or> state g = GAME_STATE_GAME_OVER)
      then GAME_STATE_PLAYING
      else if k = SDLK_p \<and> state g = GAME_STATE_PLAYING then GAME_STATE_PAUSED
      else if k = SDLK_p \<and> state g = GAME_STATE_PAUSED then GAME_STATE_PLAYING
      else state g) \<and>
   state (handle_key_up g k) = state g \<and>
   ((k = SDLK_RETURN \<or> k = SDLK_KP_ENTER) \<and>
    (state g = GAME_STATE_MENU \<or> state g = GAME_STATE_GAME_OVER) \<longrightarrow>
      handle_key_down t g k = (reset_gameplay t g)\<lparr>state := GAME_STATE_PLAYING\<rparr> \<and>
      score (handle_key_down t g k) = 0 \<and>
      elapsedTime (handle_key_down t g k) = 0 \<and>
      spawnIntervalMs (handle_key_down t g k) = OBSTACLE_BASE_INTERVAL \<and>
      lastSpawnTicks (handle_key_down t g k) = t \<and>
      player (handle_key_down t g k) =
        \<lparr> p_x = 360, p_y = 540, p_w = 80, p_h = 20, p_speed = 500 \<rparr> \<and>
      (\<forall>ob \<in> set (obstacles (handle_key_down t g k)). \<not> o_active ob)) \<and>
   ((k = SDLK_RETURN \<or> k = SDLK_KP_ENTER) \<and>
    (state g = GAME_STATE_PLAYING \<or> state g = GAME_STATE_PAUSED) \<longrightarrow>
      handle_key_down t g k = g) \<and>
   (k = SDLK_p \<and> (state g = GAME_STATE_MENU \<or> state g = GAME_STATE_GAME_OVER) \<longrightarrow>
      handle_key_down t g k = g) \<and>
   (state g \<noteq> GAME_STATE_PLAYING \<longrightarrow> update_game RM inp dt (g, w) = (g, w)) \<and>
   (state g = GAME_STATE_PLAYING \<longrightarrow>
      state (fst (update_game RM inp dt (g, w))) =
        (if check_collisions (advance_world RM inp dt g) then GAME_STATE_GAME_OVER
         else GAME_STATE_PLAYING))"
proof -
  have reset: "(k = SDLK_RETURN \<or> k = SDLK_KP_ENTER) \<and>
    (state g = GAME_STATE_MENU \<or> state g = GAME_STATE_GAME_OVER) \<longrightarrow>
      handle_key_down t g k = (reset_gameplay t g)\<lparr>state := GAME_STATE_PLAYING\<rparr> \<and>
      score (handle_key_down t g k) = 0 \<and>
      elapsedTime (handle_key_down t g k) = 0 \<and>
      spawnIntervalMs (handle_key_down t g k) = OBSTACLE_BASE_INTERVAL \<and>
      lastSpawnTicks (handle_key_down t g k) = t \<and>
      player (handle_key_down t g k) =
        \<lparr> p_x = 360, p_y = 540, p_w = 80, p_h = 20, p_speed = 500 \<rparr> \<and>
      (\<forall>ob \<in> set (obstacles (handle_key_down t g k)). \<not> o_active ob)"
  proof
    assume a: "(k = SDLK_RETURN \<or> k = SDLK_KP_ENTER) \<and>
      (state g = GAME_STATE_MENU \<or> state g = GAME_STATE_GAME_OVER)"
    then have eq: "handle_key_down t g k = (reset_gameplay t g)\<lparr>state := GAME_STATE_PLAYING\<rparr>"
      by (intro key_down_confirm) auto
    show "handle_key_down t g k = (reset_gameplay t g)\<lparr>state := GAME_STATE_PLAYING\<rparr> \<and>
      score (handle_key_down t g k) = 0 \<and>
      elapsedTime (handle_key_down t g k) = 0 \<and>
      spawnIntervalMs (handle_key_down t g k) = OBSTACLE_BASE_INTERVAL \<and>
      lastSpawnTicks (handle_key_down t g k) = t \<and>
      player (handle_key_down t g k) =
        \<lparr> p_x = 360, p_y = 540, p_w = 80, p_h = 20, p_speed = 500 \<rparr> \<and>
      (\<forall>ob \<in> set (obstacles (handle_key_down t g k)). \<not> o_active ob)"
      unfolding eq using reset_gameplay_fields[of t g] by simp
  qed
  have noop1: "(k = SDLK_RETURN \<or> k = SDLK_KP_ENTER) \<and>
    (state g = GAME_STATE_PLAYING \<or> state g = GAME_STATE_PAUSED) \<longrightarrow>
      handle_key_down t g k = g"
    using key_down_noop[of k g t] by blast
  have noop2: "k = SDLK_p \<and> (state g = GAME_STATE_MENU \<or> state g = GAME_STATE_GAME_OVER) \<longrightarrow>
      handle_key_down t g k = g"
    using key_down_noop[of k g t] by blast
  have idle: "state g \<noteq> GAME_STATE_PLAYING \<longrightarrow> update_game RM inp dt (g, w) = (g, w)"
    using update_game_idle[of g RM inp dt w] by blast
  have tick: "state g = GAME_STATE_PLAYING \<longrightarrow>
      state (fst (update_game RM inp dt (g, w))) =
        (if check_collisions (advance_world RM inp dt g) then GAME_STATE_GAME_OVER
         else GAME_STATE_PLAYING)"
    using update_game_state[of g RM inp dt w] by (simp add: advance_world_fields)
  show ?thesis
    using key_down_state[of t g k] key_up_state[of g k] reset noop1 noop2 idle tick
    by (simp only: simp_thms)
qed

lemma playing_game_state: "state playing_game = GAME_STATE_PLAYING"
  by (simp add: playing_game_eq)

lemma playing_game_literal:
  "playing_game =
     \<lparr> running = True, state = GAME_STATE_PLAYING,
       player = \<lparr> p_x = 360, p_y = 540, p_w = 80, p_h = 20, p_speed = 500 \<rparr>,
       obstacles = replicate 64 zero_obstacle,
       score = 0, highScore = 0, elapsedTime = 0, lastSpawnTicks = 1000,
       spawnIntervalMs = 700, leftPressed = False, rightPressed = False \<rparr>"
  using init_player_values[of "zero_game"]
  by (simp add: playing_game_eq menu_game_def init_game_def reset_gameplay_def
      reset_obstacles_def init_player_def zero_game_def load_high_score_def
      MAX_OBSTACLES_def zero_obstacle_def OBSTACLE_BASE_INTERVAL_def)

lemma loop_all_inactive:
  "\<forall>ob \<in> set obs. \<not> o_active ob \<Longrightarrow> update_obstacles_loop dt obs sc = (obs, sc)"
  by (induction obs) (auto simp: update_one_def)

lemma check_all_inactive:
  "\<forall>ob \<in> set obs. \<not> o_active ob \<Longrightarrow> check_collisions_loop p obs = False"
  by (induction obs) auto

lemma fl_m1: "fl (- 1) = - 1"
  by (simp add: fl_minus fl_1)

lemma fl_neg_numeral: "numeral n \<le> (16777216::int) \<Longrightarrow> fl (- numeral n) = - numeral n"
  by (simp add: fl_minus fl_numeral)

lemmas eval_simps = fops_defs fl_0 fl_1 fl_m1 fl_numeral fl_neg_numeral float_of_u32_def
  int_of_float_def clampf_def Let_def WINDOW_WIDTH_def WINDOW_HEIGHT_def

lemma replicate_inactive: "\<forall>ob \<in> set (replicate n zero_obstacle). \<not> o_active ob"
  by (simp add: zero_obstacle_def)

lemma collide_advance:
  "advance_world RM idle_input 0 collide_game = collide_game"
  "check_collisions collide_game"
proof -
  show "advance_world RM idle_input 0 collide_game = collide_game"
    using loop_all_inactive[OF replicate_inactive, of 0 63 5]
    by (simp add: advance_world_def update_player_def update_obstacles_def update_one_def
        collide_game_def playing_game_literal hit_obstacle_def idle_input_def eval_simps)
  show "check_collisions collide_game"
    using check_all_inactive[OF replicate_inactive, of _ 63]
    by (simp add: check_collisions_def collide_game_def playing_game_literal hit_obstacle_def
        rects_intersect_def eval_simps)
qed

lemma champion_advance:
  "advance_world RM idle_input 0 champion_game = champion_game"
  "check_collisions champion_game"
proof -
  show "advance_world RM idle_input 0 champion_game = champion_game"
    using loop_all_inactive[OF replicate_inactive, of 0 63 5]
    by (simp add: advance_world_def update_player_def update_obstacles_def update_one_def
        champion_game_def collide_game_def playing_game_literal hit_obstacle_def
        idle_input_def eval_simps)
  show "check_collisions champion_game"
    using collide_advance(2) by (simp add: check_collisions_def champion_game_def)
qed

theorem fsm_transitions_witness:
  "state menu_game = GAME_STATE_MENU \<and>
   state (handle_key_down 1000 menu_game SDLK_RETURN) = GAME_STATE_PLAYING \<and>
   score (handle_key_down 1000 menu_game SDLK_RETURN) = 0 \<and>
   list_all (\<lambda>ob. \<not> o_active ob) (obstacles (handle_key_down 1000 menu_game SDLK_RETURN)) \<and>
   state (handle_key_down 1000 menu_game SDLK_p) = GAME_STATE_MENU \<and>
   handle_key_down 1000 menu_game SDLK_p = menu_game \<and>
   update_game 2147483647 idle_input (1 / 16) (menu_game, empty_world) = (menu_game, empty_world) \<and>
   state playing_game = GAME_STATE_PLAYING \<and>
   handle_key_down 2000 playing_game SDLK_KP_ENTER = playing_game \<and>
   state (handle_key_down 2000 playing_game SDLK_p) = GAME_STATE_PAUSED \<and>
   state collide_game = GAME_STATE_PLAYING \<and>
   state (fst (update_game 2147483647 idle_input 0 (collide_game, empty_world))) =
     GAME_STATE_GAME_OVER"
  using fsm_transitions[of 1000 menu_game SDLK_RETURN 2147483647 idle_input "1 / 16" empty_world]
    fsm_transitions[of 1000 menu_game SDLK_p 2147483647 idle_input "1 / 16" empty_world]
    fsm_transitions[of 2000 playing_game SDLK_KP_ENTER 2147483647 idle_input 0 empty_world]
    fsm_transitions[of 2000 playing_game SDLK_p 2147483647 idle_input 0 empty_world]
    fsm_transitions[of 2000 collide_game SDLK_p 2147483647 idle_input 0 empty_world]
    collide_advance(1)[of 2147483647] collide_advance(2)
  by (simp add: menu_game_state playing_game_state collide_game_def list_all_iff)

lemma update_game_collision:
  assumes "state g = GAME_STATE_PLAYING" and "check_collisions (advance_world RM inp dt g)"
  shows "update_game RM inp dt (g, w) =
     (if highScore g < score (advance_world RM inp dt g)
      then ((advance_world RM inp dt g)
              \<lparr>state := GAME_STATE_GAME_OVER, highScore := score (advance_world RM inp dt g)\<rparr>,
            save_high_score (t_io inp) (score (advance_world RM inp dt g)) w)
      else ((advance_world RM inp dt g)\<lparr>state := GAME_STATE_GAME_OVER\<rparr>, w))"
  using assms by (simp add: update_game_def Let_def advance_world_fields)

text \<open>
  C3.  In a tick of PLAYING in which \<^verbatim>\<open>check_collisions\<close> finds a collision, the
  state becomes GAME_OVER, and the high score changes if and only if the score at that
  moment is strictly above it.  In that case the high score becomes that score and
  \<^verbatim>\<open>save_high_score\<close> is called once, with that score (the file then holds it
  when the write succeeds).  Otherwise the high score, the file and the log of saves
  are as before.
\<close>

theorem game_over_high_score:
  assumes "state g = GAME_STATE_PLAYING" and "check_collisions (advance_world RM inp dt g)"
  shows "let g5 = advance_world RM inp dt g; U = update_game RM inp dt (g, w)
         in state (fst U) = GAME_STATE_GAME_OVER \<and>
            score (fst U) = score g5 \<and>
            (highScore (fst U) \<noteq> highScore g) = (highScore g < score g5) \<and>
            (highScore g < score g5 \<longrightarrow>
               highScore (fst U) = score g5 \<and>
               save_calls (snd U) = save_calls w @ [score g5] \<and>
               hs_disk (snd U) = (case t_io inp of OpenFails \<Rightarrow> hs_disk w
                                   | WriteFails \<Rightarrow> Unreadable
                                   | WriteOk \<Rightarrow> Stored (score g5))) \<and>
            (\<not> highScore g < score g5 \<longrightarrow> highScore (fst U) = highScore g \<and> snd U = w)"
  unfolding Let_def update_game_collision[OF assms]
  by (simp add: advance_world_fields save_high_score_def)

theorem game_over_high_score_witness:
  "state collide_game = GAME_STATE_PLAYING \<and>
   check_collisions (advance_world 2147483647 idle_input 0 collide_game) \<and>
   highScore collide_game = 0 \<and>
   score (advance_world 2147483647 idle_input 0 collide_game) = 5 \<and>
   state (fst (update_game 2147483647 idle_input 0 (collide_game, empty_world))) =
     GAME_STATE_GAME_OVER \<and>
   highScore (fst (update_game 2147483647 idle_input 0 (collide_game, empty_world))) = 5 \<and>
   save_calls (snd (update_game 2147483647 idle_input 0 (collide_game, empty_world))) = [5] \<and>
   hs_disk (snd (update_game 2147483647 idle_input 0 (collide_game, empty_world))) = Stored 5 \<and>
   state champion_game = GAME_STATE_PLAYING \<and>
   check_collisions (advance_world 2147483647 idle_input 0 champion_game) \<and>
   highScore champion_game = 9 \<and>
   score (advance_world 2147483647 idle_input 0 champion_game) = 5 \<and>
   highScore (fst (update_game 2147483647 idle_input 0 (champion_game, empty_world))) = 9 \<and>
   snd (update_game 2147483647 idle_input 0 (champion_game, empty_world)) = empty_world"
proof -
  have c: "state collide_game = GAME_STATE_PLAYING"
    "check_collisions (advance_world 2147483647 idle_input 0 collide_game)"
    by (simp_all add: collide_advance, simp add: collide_game_def playing_game_state)
  have d: "state champion_game = GAME_STATE_PLAYING"
    "check_collisions (advance_world 2147483647 idle_input 0 champion_game)"
    by (simp_all add: champion_advance, simp add: champion_game_def collide_game_def playing_game_state)
  have f: "score collide_game = 5" "highScore collide_game = 0"
    "score champion_game = 5" "highScore champion_game = 9"
    "t_io idle_input = WriteOk" "save_calls empty_world = []"
    by (simp_all add: champion_game_def collide_game_def playing_game_literal idle_input_def
        empty_world_def)
  show ?thesis
    using c d game_over_high_score[OF c, of empty_world] game_over_high_score[OF d, of empty_world]
    by (simp add: Let_def collide_advance champion_advance f)
qed

section \<open>Player\<close>

lemma clampf_bounds: "mn \<le> mx \<Longrightarrow> mn \<le> clampf v mn mx \<and> clampf v mn mx \<le> mx"
  by (auto simp: clampf_def)

lemma fl_nonpos: "x \<le> 0 \<Longrightarrow> fl x \<le> 0"
  using fl_mono[of x 0] by (simp add: fl_0)

lemma fmul_nonpos: "a * b \<le> 0 \<Longrightarrow> fmul a b \<le> 0"
  by (simp add: fmul_def fl_nonpos)

lemma fadd_nonpos: "a + b \<le> 0 \<Longrightarrow> fadd a b \<le> 0"
  by (simp add: fadd_def fl_nonpos)

lemma update_player_x:
  "p_x (player (update_player dt g)) =
     clampf (fadd (p_x (player g))
               (fmul (fmul (if rightPressed g then fadd (if leftPressed g then fsub 0 1 else 0) 1
                            else if leftPressed g then fsub 0 1 else 0)
                       (p_speed (player g))) dt))
            0 (fsub (float_of_int WINDOW_WIDTH) (p_w (player g)))"
  by (simp add: update_player_def Let_def)

lemma update_player_w: "p_w (player (update_player dt g)) = p_w (player g)"
  by (simp add: update_player_def Let_def)

lemma update_game_player:
  "player (fst (update_game RM inp dt (g, w))) =
     (if state g = GAME_STATE_PLAYING then player (update_player dt g) else player g)"
  by (simp add: update_game_def Let_def advance_world_fields)

lemma scenario4_general:
  assumes "p_x (player g) = 0" "leftPressed g" "\<not> rightPressed g" "0 \<le> dt"
    "0 \<le> p_speed (player g)" "p_w (player g) = PLAYER_WIDTH"
  shows "p_x (player (update_player dt g)) = 0"
proof -
  have "fl (p_speed (player g)) \<ge> 0" using assms(5) by (rule fl_nonneg)
  moreover have d: "fsub 0 1 = - 1" by (simp add: fsub_def fl_m1)
  ultimately have "fmul (fsub 0 1) (p_speed (player g)) \<le> 0"
    by (simp add: d fmul_def fl_minus)
  then have "fmul (fsub 0 1) (p_speed (player g)) * dt \<le> 0"
    using assms(4) by (simp add: mult_le_0_iff)
  then have "fmul (fmul (fsub 0 1) (p_speed (player g))) dt \<le> 0"
    by (rule fmul_nonpos)
  then have "fadd 0 (fmul (fmul (fsub 0 1) (p_speed (player g))) dt) \<le> 0"
    by (intro fadd_nonpos) simp
  then show ?thesis
    using assms by (simp add: update_player_x clampf_def fsub_def float_of_int_def fl_numeral
        WINDOW_WIDTH_def PLAYER_WIDTH_def)
qed

text \<open>
  C4.  With the player's width the one \<^verbatim>\<open>init_player\<close> sets (no other code writes
  it), \<^verbatim>\<open>update_player\<close> leaves \<open>x\<close> between 0 and the screen width minus that
  width, for every time step and both flags; the player after a tick is the player
  after \<^verbatim>\<open>update_player\<close> (in PLAYING) or the player before (otherwise); the width
  is kept.  A player at \<open>x = 0\<close> with only the left key held stays at \<open>x = 0\<close>, for
  every time step and speed that are not negative.
\<close>

theorem player_stays_on_screen:
  assumes "p_w (player g) = PLAYER_WIDTH"
  shows "0 \<le> p_x (player (update_player dt g)) \<and>
         p_x (player (update_player dt g)) \<le> of_int WINDOW_WIDTH - PLAYER_WIDTH \<and>
         p_w (player (update_player dt g)) = PLAYER_WIDTH \<and>
         player (fst (update_game RM inp dt (g, w))) =
           (if state g = GAME_STATE_PLAYING then player (update_player dt g) else player g) \<and>
         (p_x (player g) = 0 \<and> leftPressed g \<and> \<not> rightPressed g \<and> 0 \<le> dt \<and>
          0 \<le> p_speed (player g) \<longrightarrow> p_x (player (update_player dt g)) = 0)"
proof -
  have mx: "fsub (float_of_int WINDOW_WIDTH) (p_w (player g)) = 720"
    using assms by (simp add: fsub_def float_of_int_def fl_numeral WINDOW_WIDTH_def PLAYER_WIDTH_def)
  have "0 \<le> p_x (player (update_player dt g)) \<and> p_x (player (update_player dt g)) \<le> 720"
    unfolding update_player_x mx by (rule clampf_bounds) simp
  moreover have "p_x (player g) = 0 \<and> leftPressed g \<and> \<not> rightPressed g \<and> 0 \<le> dt \<and>
          0 \<le> p_speed (player g) \<longrightarrow> p_x (player (update_player dt g)) = 0"
    using scenario4_general[of g dt] assms by blast
  ultimately show ?thesis
    using assms update_game_player[of RM inp dt g w]
    by (simp add: update_player_w WINDOW_WIDTH_def PLAYER_WIDTH_def)
qed

theorem player_stays_on_screen_witness:
  "p_w (player edge_game) = PLAYER_WIDTH \<and> p_x (player edge_game) = 0 \<and>
   leftPressed edge_game \<and> \<not> rightPressed edge_game \<and> p_speed (player edge_game) = 500 \<and>
   p_x (player (update_player 1 edge_game)) = 0 \<and>
   state edge_game = GAME_STATE_PLAYING \<and>
   p_x (player (fst (update_game 2147483647 idle_input 1 (edge_game, empty_world)))) = 0"
  using player_stays_on_screen[of edge_game 1 2147483647 idle_input empty_world]
  by (simp add: edge_game_def playing_game_literal PLAYER_WIDTH_def)

section \<open>Spawn interval\<close>

lemma decay_bounds: "0 \<le> OBSTACLE_INTERVAL_DECAY \<and> OBSTACLE_INTERVAL_DECAY \<le> 1"
proof -
  have "fl 0 \<le> fl (985 / 1000)" by (rule fl_mono) simp
  moreover have "fl (985 / 1000) \<le> fl 1" by (rule fl_mono) simp
  ultimately show ?thesis by (simp add: OBSTACLE_INTERVAL_DECAY_def fl_0 fl_1)
qed

lemma is_f32_numeral: "numeral n \<le> (16777216::int) \<Longrightarrow> is_f32 (numeral n)"
  by (simp add: is_f32_def fl_numeral)

lemma spawn_interval_eq:
  "first_inactive (obstacles g) \<noteq> None \<Longrightarrow>
   spawnIntervalMs (spawn_obstacle RM r1 r2 t g) =
     max OBSTACLE_MIN_INTERVAL (fmul (spawnIntervalMs g) OBSTACLE_INTERVAL_DECAY)"
  by (auto simp: spawn_obstacle_def Let_def max_def)

lemma first_inactive_replicate: "first_inactive (replicate (Suc n) zero_obstacle) = Some 0"
  by (simp add: zero_obstacle_def)

lemma spawn_decay_step:
  assumes "is_f32 (spawnIntervalMs g)" and "OBSTACLE_MIN_INTERVAL \<le> spawnIntervalMs g"
    and "first_inactive (obstacles g) \<noteq> None"
  shows "spawnIntervalMs (spawn_obstacle RM r1 r2 t g) =
           max OBSTACLE_MIN_INTERVAL (fmul (spawnIntervalMs g) OBSTACLE_INTERVAL_DECAY) \<and>
         OBSTACLE_MIN_INTERVAL \<le> spawnIntervalMs (spawn_obstacle RM r1 r2 t g) \<and>
         spawnIntervalMs (spawn_obstacle RM r1 r2 t g) \<le> spawnIntervalMs g \<and>
         is_f32 (spawnIntervalMs (spawn_obstacle RM r1 r2 t g)) \<and>
         is_f32 (spawnIntervalMs (reset_gameplay t0 g0)) \<and>
         OBSTACLE_MIN_INTERVAL \<le> spawnIntervalMs (reset_gameplay t0 g0)"
proof -
  let ?I = "spawnIntervalMs g"
  have pos: "0 \<le> ?I" using assms(2) by (simp add: OBSTACLE_MIN_INTERVAL_def)
  have "?I * OBSTACLE_INTERVAL_DECAY \<le> ?I * 1"
    using decay_bounds pos by (intro mult_left_mono) auto
  then have "fl (?I * OBSTACLE_INTERVAL_DECAY) \<le> fl ?I" using fl_mono[of "?I * OBSTACLE_INTERVAL_DECAY" ?I] by simp
  then have le: "fmul ?I OBSTACLE_INTERVAL_DECAY \<le> ?I"
    using assms(1) by (simp add: fmul_def is_f32_def)
  have f: "is_f32 (max OBSTACLE_MIN_INTERVAL (fmul ?I OBSTACLE_INTERVAL_DECAY))"
    by (simp add: max_def fmul_def is_f32_fl OBSTACLE_MIN_INTERVAL_def is_f32_numeral)
  show ?thesis
    unfolding spawn_interval_eq[OF assms(3)]
    using le assms(2) f
    by (simp add: reset_gameplay_fields OBSTACLE_BASE_INTERVAL_def OBSTACLE_MIN_INTERVAL_def
        is_f32_numeral)
qed

section \<open>Obstacle speed\<close>

lemma update_one_keeps:
  "o_speed (fst (update_one dt ob sc)) = o_speed ob"
  "o_x (fst (update_one dt ob sc)) = o_x ob"
  "o_w (fst (update_one dt ob sc)) = o_w ob"
  "o_h (fst (update_one dt ob sc)) = o_h ob"
  "o_active (fst (update_one dt ob sc)) \<Longrightarrow> o_active ob"
  by (auto simp: update_one_def Let_def split: if_splits)

lemma update_one_fst: "fst (update_one dt ob sc) = fst (update_one dt ob 0)"
  by (simp add: update_one_def Let_def)

lemma loop_fst:
  "fst (update_obstacles_loop dt obs sc) = map (\<lambda>ob. fst (update_one dt ob 0)) obs"
proof (induction obs arbitrary: sc)
  case Nil
  then show ?case by simp
next
  case (Cons ob obs)
  then show ?case
    using update_one_fst[of dt ob sc]
    by (simp add: split_beta Let_def)
qed

lemma update_obstacles_obs:
  "obstacles (update_obstacles dt g) = map (\<lambda>ob. fst (update_one dt ob 0)) (obstacles g)"
  using loop_fst[of dt "obstacles g" "score g"]
  by (simp add: update_obstacles_def split_beta)

lemma update_obstacles_speed:
  "map o_speed (obstacles (update_obstacles dt g)) = map o_speed (obstacles g)"
  by (simp add: update_obstacles_obs update_one_keeps o_def)

lemma first_inactive_Some:
  "first_inactive obs = Some i \<Longrightarrow> i < length obs \<and> \<not> o_active (obs ! i)"
proof (induction obs arbitrary: i)
  case Nil
  then show ?case by simp
next
  case (Cons ob obs)
  then show ?case by (cases "o_active ob") auto
qed

lemma spawn_obstacles_eq:
  "first_inactive (obstacles g) = Some i \<Longrightarrow>
   obstacles (spawn_obstacle RM r1 r2 t g) =
     (obstacles g)[i :=
        \<lparr> o_x = rand_range RM r2 0
                 (fsub (float_of_int WINDOW_WIDTH)
                    (rand_range RM r1 OBSTACLE_MIN_WIDTH OBSTACLE_MAX_WIDTH)),
          o_y = - OBSTACLE_HEIGHT,
          o_w = rand_range RM r1 OBSTACLE_MIN_WIDTH OBSTACLE_MAX_WIDTH,
          o_h = OBSTACLE_HEIGHT,
          o_speed = fadd OBSTACLE_BASE_SPEED
                      (fmul (fmul OBSTACLE_SPEED_INCREMENT (elapsedTime g)) OBSTACLE_BASE_SPEED),
          o_active = True \<rparr>]"
  by (simp add: spawn_obstacle_def Let_def)

lemma spawn_keeps_active:
  assumes "j < length (obstacles g)" "o_active (obstacles g ! j)"
  shows "obstacles (spawn_obstacle RM r1 r2 t g) ! j = obstacles g ! j"
proof (cases "first_inactive (obstacles g)")
  case None
  then show ?thesis by (simp add: spawn_obstacle_def)
next
  case (Some i)
  then have "i \<noteq> j" using first_inactive_Some[OF Some] assms(2) by auto
  then show ?thesis by (simp add: spawn_obstacles_eq[OF Some])
qed

lemma spawn_length: "length (obstacles (spawn_obstacle RM r1 r2 t g)) = length (obstacles g)"
  by (simp add: spawn_obstacle_def Let_def split: option.splits)

lemma key_down_speed:
  "map o_speed (obstacles (handle_key_down t g k)) = map o_speed (obstacles g)"
  by (cases k) (simp_all add: reset_gameplay_def reset_obstacles_def init_player_def o_def)

lemma key_up_obstacles: "obstacles (handle_key_up g k) = obstacles g"
  by (cases k) simp_all

lemma speed_increment_nonneg: "0 \<le> OBSTACLE_SPEED_INCREMENT"
  unfolding OBSTACLE_SPEED_INCREMENT_def by (rule fl_nonneg) simp

lemma spawn_speed_mono:
  assumes "e1 \<le> e2"
  shows "fadd OBSTACLE_BASE_SPEED (fmul (fmul OBSTACLE_SPEED_INCREMENT e1) OBSTACLE_BASE_SPEED)
       \<le> fadd OBSTACLE_BASE_SPEED (fmul (fmul OBSTACLE_SPEED_INCREMENT e2) OBSTACLE_BASE_SPEED)"
proof -
  have "OBSTACLE_SPEED_INCREMENT * e1 \<le> OBSTACLE_SPEED_INCREMENT * e2"
    using assms speed_increment_nonneg by (rule mult_left_mono)
  then have "fmul OBSTACLE_SPEED_INCREMENT e1 \<le> fmul OBSTACLE_SPEED_INCREMENT e2"
    unfolding fmul_def by (rule fl_mono)
  then have "fmul OBSTACLE_SPEED_INCREMENT e1 * OBSTACLE_BASE_SPEED
           \<le> fmul OBSTACLE_SPEED_INCREMENT e2 * OBSTACLE_BASE_SPEED"
    by (intro mult_right_mono) (simp_all add: OBSTACLE_BASE_SPEED_def)
  then have "fmul (fmul OBSTACLE_SPEED_INCREMENT e1) OBSTACLE_BASE_SPEED
           \<le> fmul (fmul OBSTACLE_SPEED_INCREMENT e2) OBSTACLE_BASE_SPEED"
    unfolding fmul_def[of "fmul _ _"] by (rule fl_mono)
  then show ?thesis unfolding fadd_def by (intro fl_mono) simp
qed

lemma advance_world_obstacles:
  "\<exists>g4. obstacles g4 = obstacles (update_obstacles dt g) \<and>
         elapsedTime g4 = fadd (elapsedTime g) dt \<and>
         obstacles (advance_world RM inp dt g) =
           (if float_of_u32 (t_now inp - lastSpawnTicks g) \<ge> spawnIntervalMs g
            then obstacles (spawn_obstacle RM (t_rand_w inp) (t_rand_x inp) (t_spawn_now inp) g4)
            else obstacles g4)"
proof -
  define g3 where
    "g3 = update_player dt
            (g\<lparr>elapsedTime := fadd (elapsedTime g) dt,
               score := score g + int_of_float (fmul dt 20)\<rparr>)"
  have o3: "obstacles g3 = obstacles g" by (simp add: g3_def update_player_fields)
  have "obstacles (update_obstacles dt g3) = obstacles (update_obstacles dt g)"
    by (simp only: update_obstacles_obs o3)
  moreover have "elapsedTime (update_obstacles dt g3) = fadd (elapsedTime g) dt"
    by (simp add: g3_def update_obstacles_fields update_player_fields)
  moreover have "obstacles (advance_world RM inp dt g) =
           (if float_of_u32 (t_now inp - lastSpawnTicks g) \<ge> spawnIntervalMs g
            then obstacles (spawn_obstacle RM (t_rand_w inp) (t_rand_x inp) (t_spawn_now inp)
                   (update_obstacles dt g3))
            else obstacles (update_obstacles dt g3))"
    by (simp add: advance_world_def Let_def g3_def update_obstacles_fields update_player_fields)
  ultimately show ?thesis by blast
qed

lemma update_game_obstacles:
  "state g = GAME_STATE_PLAYING \<Longrightarrow>
   obstacles (fst (update_game RM inp dt (g, w))) = obstacles (advance_world RM inp dt g)"
  by (simp add: update_game_def Let_def)

lemma tick_keeps_speed:
  assumes "state g = GAME_STATE_PLAYING" "j < length (obstacles g)"
    "o_active (obstacles (update_obstacles dt g) ! j)"
  shows "o_speed (obstacles (fst (update_game RM inp dt (g, w))) ! j) = o_speed (obstacles g ! j)"
proof -
  obtain g4 where g4: "obstacles g4 = obstacles (update_obstacles dt g)"
    and adv: "obstacles (advance_world RM inp dt g) =
           (if float_of_u32 (t_now inp - lastSpawnTicks g) \<ge> spawnIntervalMs g
            then obstacles (spawn_obstacle RM (t_rand_w inp) (t_rand_x inp) (t_spawn_now inp) g4)
            else obstacles g4)"
    using advance_world_obstacles[of dt g RM inp] by blast
  have len: "j < length (obstacles g4)"
    using assms(2) by (simp add: g4 update_obstacles_obs)
  have act: "o_active (obstacles g4 ! j)" using assms(3) by (simp add: g4)
  have sp: "o_speed (obstacles g4 ! j) = o_speed (obstacles g ! j)"
    using assms(2) by (simp add: g4 update_obstacles_obs update_one_keeps)
  have "obstacles (advance_world RM inp dt g) ! j = obstacles g4 ! j"
    using spawn_keeps_active[OF len act] by (simp add: adv)
  then show ?thesis using sp assms(1) by (simp add: update_game_obstacles)
qed

lemma fl_rel_err: "\<bar>fl x - x\<bar> \<le> \<bar>x\<bar> / 16777216 + 2 powi (- 150)"
proof (cases "expo x = - 126")
  case True
  then have "ulp x / 2 = 2 powi (- 149) / 2" by (simp add: ulp_def)
  also have "\<dots> = 2 powi (- 150)" by simp
  finally have u: "ulp x / 2 = 2 powi (- 150)" .
  have "\<bar>fl x - x\<bar> \<le> 2 powi (- 150)" using fl_err[of x] unfolding u .
  moreover have "0 \<le> \<bar>x\<bar> / 16777216" by simp
  ultimately show ?thesis by (rule order_trans[OF _ le_add_same_cancel2[THEN iffD2]])
next
  case False
  then have "- 126 < expo x" using expo_range[of x] by simp
  then have lo: "2 powi (expo x) \<le> \<bar>x\<bar>" by (rule expo_lower)
  have "ulp x * 8388608 = 2 powi (expo x)" by (simp only: ulp_def pow_ulp_23)
  then have "ulp x / 2 = 2 powi (expo x) / 16777216" by simp
  then have "ulp x / 2 \<le> \<bar>x\<bar> / 16777216" using lo by simp
  then have "\<bar>fl x - x\<bar> \<le> \<bar>x\<bar> / 16777216" using fl_err[of x] by simp
  moreover have "(0::real) \<le> 2 powi (- 150)" by simp
  ultimately show ?thesis by (rule order_trans[OF _ le_add_same_cancel1[THEN iffD2]])
qed

lemma eta_small: "(2::real) powi (- 150) \<le> 1 / 1000000000000000000000000000000"
proof -
  have "(2::real) ^ 150 \<ge> 1000000000000000000000000000000" by simp
  then show ?thesis by (simp add: field_simps)
qed

lemma speed_increment_value: "OBSTACLE_SPEED_INCREMENT = 16106127 / 536870912"
  using fl_eq[of "- 6" "3 / 100"] by (simp add: OBSTACLE_SPEED_INCREMENT_def rhe_def)

lemma spawn_speed_close:
  assumes "0 \<le> e"
  shows "\<bar>fadd OBSTACLE_BASE_SPEED (fmul (fmul OBSTACLE_SPEED_INCREMENT e) OBSTACLE_BASE_SPEED)
          - (200 + 200 * (3 / 100) * e)\<bar> \<le> (200 + 200 * (3 / 100) * e) / 2097152"
proof -
  define a where "a = fl (16106127 / 536870912 * e)"
  define b where "b = fl (a * 200)"
  define s where "s = fl (200 + b)"
  define h :: real where "h = 2 powi (- 150)"
  have h: "0 \<le> h" "h \<le> 1 / 1000000000000000000000000000000"
    using eta_small by (simp_all add: h_def)
  have a0: "0 \<le> a" unfolding a_def using assms by (intro fl_nonneg) simp
  have b0: "0 \<le> b" unfolding b_def using a0 by (intro fl_nonneg) simp
  have ea: "\<bar>a - 16106127 / 536870912 * e\<bar> \<le> (16106127 / 536870912 * e) / 16777216 + h"
    using fl_rel_err[of "16106127 / 536870912 * e"] assms by (simp add: a_def h_def)
  have eb: "\<bar>b - a * 200\<bar> \<le> (a * 200) / 16777216 + h"
    using fl_rel_err[of "a * 200"] a0 by (simp add: b_def h_def)
  have es: "\<bar>s - (200 + b)\<bar> \<le> (200 + b) / 16777216 + h"
    using fl_rel_err[of "200 + b"] b0 by (simp add: s_def h_def)
  have a1: "a \<le> 16106127 / 536870912 * e * (1 + 1 / 16777216) + h"
    using ea by argo
  have a2: "16106127 / 536870912 * e * (1 - 1 / 16777216) - h \<le> a"
    using ea by argo
  have b1: "b \<le> a * 200 * (1 + 1 / 16777216) + h"
    using eb by argo
  have b2: "a * 200 * (1 - 1 / 16777216) - h \<le> b"
    using eb by argo
  have s1: "s \<le> (200 + b) * (1 + 1 / 16777216) + h"
    using es by argo
  have s2: "(200 + b) * (1 - 1 / 16777216) - h \<le> s"
    using es by argo
  have up: "s \<le> (200 + 6 * e) * (1 + 1 / 2097152)"
    using a1 b1 s1 h assms by argo
  have dn: "(200 + 6 * e) * (1 - 1 / 2097152) \<le> s"
    using a2 b2 s2 h assms by argo
  have "\<bar>s - (200 + 6 * e)\<bar> \<le> (200 + 6 * e) / 2097152"
    using up dn by argo
  then show ?thesis
    by (simp add: fadd_def fmul_def speed_increment_value OBSTACLE_BASE_SPEED_def
        s_def b_def a_def)
qed

text \<open>
  C7.  The slot chosen by a spawn receives the speed
  \<open>BASE + (INCREMENT * elapsedTime) * BASE\<close>, each operation in single precision and
  in the order of the source, at the elapsed time of the game given to
  \<^verbatim>\<open>spawn_obstacle\<close>; that slot was inactive and is now active.  For an elapsed
  time that is not negative this value is within a relative error of \<open>2 powi (-21)\<close>
  of the real number \<open>BASE + BASE * 0.03 * elapsedTime\<close>.  The expression does not
  decrease when the elapsed time grows.  Nothing else writes a speed: a spawn leaves
  every active slot as it is, \<^verbatim>\<open>update_obstacles\<close> and the key handlers leave all
  speeds as they are, and over a tick of PLAYING a slot that is still active after
  \<^verbatim>\<open>update_obstacles\<close> has the speed it had before the tick.
\<close>

theorem obstacle_speed_fixed_at_spawn:
  "(first_inactive (obstacles g) = Some i \<longrightarrow>
      \<not> o_active (obstacles g ! i) \<and>
      o_active (obstacles (spawn_obstacle RM r1 r2 t g) ! i) \<and>
      o_speed (obstacles (spawn_obstacle RM r1 r2 t g) ! i) =
        fadd OBSTACLE_BASE_SPEED
          (fmul (fmul OBSTACLE_SPEED_INCREMENT (elapsedTime g)) OBSTACLE_BASE_SPEED)) \<and>
   (first_inactive (obstacles g) = Some i \<and> 0 \<le> elapsedTime g \<longrightarrow>
      \<bar>o_speed (obstacles (spawn_obstacle RM r1 r2 t g) ! i)
         - (OBSTACLE_BASE_SPEED + OBSTACLE_BASE_SPEED * (3 / 100) * elapsedTime g)\<bar>
      \<le> (OBSTACLE_BASE_SPEED + OBSTACLE_BASE_SPEED * (3 / 100) * elapsedTime g) / 2097152) \<and>
   (e1 \<le> e2 \<longrightarrow>
      fadd OBSTACLE_BASE_SPEED (fmul (fmul OBSTACLE_SPEED_INCREMENT e1) OBSTACLE_BASE_SPEED)
      \<le> fadd OBSTACLE_BASE_SPEED (fmul (fmul OBSTACLE_SPEED_INCREMENT e2) OBSTACLE_BASE_SPEED)) \<and>
   (j < length (obstacles g) \<and> o_active (obstacles g ! j) \<longrightarrow>
      obstacles (spawn_obstacle RM r1 r2 t g) ! j = obstacles g ! j) \<and>
   map o_speed (obstacles (update_obstacles dt g)) = map o_speed (obstacles g) \<and>
   map o_speed (obstacles (handle_key_down t g k)) = map o_speed (obstacles g) \<and>
   obstacles (handle_key_up g k) = obstacles g \<and>
   (state g = GAME_STATE_PLAYING \<and> j < length (obstacles g) \<and>
    o_active (obstacles (update_obstacles dt g) ! j) \<longrightarrow>
      o_speed (obstacles (fst (update_game RM inp dt (g, w))) ! j) = o_speed (obstacles g ! j))"
proof -
  have a: "first_inactive (obstacles g) = Some i \<longrightarrow>
      \<not> o_active (obstacles g ! i) \<and>
      o_active (obstacles (spawn_obstacle RM r1 r2 t g) ! i) \<and>
      o_speed (obstacles (spawn_obstacle RM r1 r2 t g) ! i) =
        fadd OBSTACLE_BASE_SPEED
          (fmul (fmul OBSTACLE_SPEED_INCREMENT (elapsedTime g)) OBSTACLE_BASE_SPEED)"
  proof
    assume s: "first_inactive (obstacles g) = Some i"
    then show "\<not> o_active (obstacles g ! i) \<and>
      o_active (obstacles (spawn_obstacle RM r1 r2 t g) ! i) \<and>
      o_speed (obstacles (spawn_obstacle RM r1 r2 t g) ! i) =
        fadd OBSTACLE_BASE_SPEED
          (fmul (fmul OBSTACLE_SPEED_INCREMENT (elapsedTime g)) OBSTACLE_BASE_SPEED)"
      using first_inactive_Some[OF s] by (simp add: spawn_obstacles_eq[OF s])
  qed
  have a': "first_inactive (obstacles g) = Some i \<and> 0 \<le> elapsedTime g \<longrightarrow>
      \<bar>o_speed (obstacles (spawn_obstacle RM r1 r2 t g) ! i)
         - (OBSTACLE_BASE_SPEED + OBSTACLE_BASE_SPEED * (3 / 100) * elapsedTime g)\<bar>
      \<le> (OBSTACLE_BASE_SPEED + OBSTACLE_BASE_SPEED * (3 / 100) * elapsedTime g) / 2097152"
  proof
    assume h: "first_inactive (obstacles g) = Some i \<and> 0 \<le> elapsedTime g"
    then have s: "first_inactive (obstacles g) = Some i" and e: "0 \<le> elapsedTime g"
      by simp_all
    have "o_speed (obstacles (spawn_obstacle RM r1 r2 t g) ! i) =
        fadd OBSTACLE_BASE_SPEED
          (fmul (fmul OBSTACLE_SPEED_INCREMENT (elapsedTime g)) OBSTACLE_BASE_SPEED)"
      using first_inactive_Some[OF s] by (simp add: spawn_obstacles_eq[OF s])
    then show "\<bar>o_speed (obstacles (spawn_obstacle RM r1 r2 t g) ! i)
         - (OBSTACLE_BASE_SPEED + OBSTACLE_BASE_SPEED * (3 / 100) * elapsedTime g)\<bar>
      \<le> (OBSTACLE_BASE_SPEED + OBSTACLE_BASE_SPEED * (3 / 100) * elapsedTime g) / 2097152"
      using spawn_speed_close[OF e] by (simp add: OBSTACLE_BASE_SPEED_def)
  qed
  have b: "e1 \<le> e2 \<longrightarrow>
      fadd OBSTACLE_BASE_SPEED (fmul (fmul OBSTACLE_SPEED_INCREMENT e1) OBSTACLE_BASE_SPEED)
      \<le> fadd OBSTACLE_BASE_SPEED (fmul (fmul OBSTACLE_SPEED_INCREMENT e2) OBSTACLE_BASE_SPEED)"
    using spawn_speed_mono[of e1 e2] by blast
  have c: "j < length (obstacles g) \<and> o_active (obstacles g ! j) \<longrightarrow>
      obstacles (spawn_obstacle RM r1 r2 t g) ! j = obstacles g ! j"
    using spawn_keeps_active[of j g RM r1 r2 t] by blast
  have d: "state g = GAME_STATE_PLAYING \<and> j < length (obstacles g) \<and>
    o_active (obstacles (update_obstacles dt g) ! j) \<longrightarrow>
      o_speed (obstacles (fst (update_game RM inp dt (g, w))) ! j) = o_speed (obstacles g ! j)"
    using tick_keeps_speed[of g j dt RM inp w] by blast
  show ?thesis
    using a a' b c d update_obstacles_speed[of dt g] key_down_speed[of t g k]
      key_up_obstacles[of g k]
    by (simp only: simp_thms)
qed

lemma playing_first_inactive: "first_inactive (obstacles playing_game) = Some 0"
proof -
  have "obstacles playing_game = replicate (Suc 63) zero_obstacle"
    by (simp add: playing_game_literal)
  then show ?thesis by (simp only: first_inactive_replicate)
qed

lemma collide_game_fields:
  "state collide_game = GAME_STATE_PLAYING"
  "obstacles collide_game = hit_obstacle # replicate 63 zero_obstacle"
  "score collide_game = 5" "highScore collide_game = 0" "elapsedTime collide_game = 0"
  by (simp_all add: collide_game_def playing_game_literal)

theorem obstacle_speed_fixed_at_spawn_witness:
  "first_inactive (obstacles playing_game) = Some 0 \<and>
   elapsedTime playing_game = 0 \<and>
   o_speed (obstacles (spawn_obstacle 2147483647 12345 67890 1700 playing_game) ! 0) = 200 \<and>
   (0::real) \<le> 1 \<and>
   fadd OBSTACLE_BASE_SPEED (fmul (fmul OBSTACLE_SPEED_INCREMENT 0) OBSTACLE_BASE_SPEED)
     \<le> fadd OBSTACLE_BASE_SPEED (fmul (fmul OBSTACLE_SPEED_INCREMENT 1) OBSTACLE_BASE_SPEED) \<and>
   state collide_game = GAME_STATE_PLAYING \<and>
   0 < length (obstacles collide_game) \<and>
   o_active (obstacles collide_game ! 0) \<and>
   obstacles (spawn_obstacle 2147483647 12345 67890 1700 collide_game) ! 0 = hit_obstacle \<and>
   o_active (obstacles (update_obstacles 0 collide_game) ! 0) \<and>
   o_speed (obstacles (fst (update_game 2147483647 idle_input 0 (collide_game, empty_world))) ! 0)
     = 200"
proof -
  have u: "o_active (obstacles (update_obstacles 0 collide_game) ! 0)"
    by (simp add: update_obstacles_obs collide_game_fields update_one_def hit_obstacle_def
        eval_simps)
  show ?thesis
    using obstacle_speed_fixed_at_spawn[where g = playing_game and i = 0 and RM = 2147483647
        and ?r1.0 = 12345 and ?r2.0 = 67890 and t = 1700 and ?e1.0 = 0 and ?e2.0 = 1 and j = 0
        and dt = 0 and k = SDLK_other and inp = idle_input and w = empty_world]
      obstacle_speed_fixed_at_spawn[where g = collide_game and i = 1 and RM = 2147483647
        and ?r1.0 = 12345 and ?r2.0 = 67890 and t = 1700 and ?e1.0 = 0 and ?e2.0 = 1 and j = 0
        and dt = 0 and k = SDLK_other and inp = idle_input and w = empty_world]
      u playing_first_inactive
    by (simp add: collide_game_fields playing_game_literal hit_obstacle_def fl_0
        fadd_def fmul_def fl_numeral OBSTACLE_BASE_SPEED_def)
qed

section \<open>Spawn geometry\<close>

lemma float_of_int_mono: "a \<le> b \<Longrightarrow> float_of_int a \<le> float_of_int b"
  unfolding float_of_int_def by (rule fl_mono) simp

lemma rand_unit:
  assumes "0 \<le> r" "r \<le> RM" "0 < RM"
  shows "0 \<le> fdiv (float_of_int r) (float_of_int RM) \<and>
         fdiv (float_of_int r) (float_of_int RM) \<le> 1"
proof -
  have "float_of_int 1 \<le> float_of_int RM" using assms(3) by (intro float_of_int_mono) simp
  then have d: "1 \<le> float_of_int RM" by (simp add: float_of_int_def fl_1)
  have "float_of_int 0 \<le> float_of_int r" using assms(1) by (rule float_of_int_mono)
  then have n: "0 \<le> float_of_int r" by (simp add: float_of_int_def fl_0)
  have le: "float_of_int r \<le> float_of_int RM" using assms(2) by (rule float_of_int_mono)
  have "0 \<le> float_of_int r / float_of_int RM" using n d by simp
  then have "fl 0 \<le> fl (float_of_int r / float_of_int RM)" by (rule fl_mono)
  moreover have "float_of_int r / float_of_int RM \<le> 1" using le d by simp
  then have "fl (float_of_int r / float_of_int RM) \<le> fl 1" by (rule fl_mono)
  ultimately show ?thesis by (simp add: fdiv_def fl_0 fl_1)
qed

lemma rand_range_bounds:
  assumes "0 \<le> r" "r \<le> RM" "0 < RM"
    and "is_f32 mn" "is_f32 mx" "mn \<le> mx" "fl (mx - mn) = mx - mn"
  shows "mn \<le> rand_range RM r mn mx \<and> rand_range RM r mn mx \<le> mx"
proof -
  define t where "t = fdiv (float_of_int r) (float_of_int RM)"
  have t: "0 \<le> t" "t \<le> 1" using rand_unit[OF assms(1-3)] by (simp_all add: t_def)
  define q where "q = fmul t (fsub mx mn)"
  have D: "fsub mx mn = mx - mn" using assms(7) by (simp add: fsub_def)
  have "0 \<le> t * (mx - mn)" using t assms(6) by simp
  then have "fl 0 \<le> fl (t * (mx - mn))" by (rule fl_mono)
  then have q0: "0 \<le> q" by (simp add: q_def fmul_def D fl_0)
  have "t * (mx - mn) \<le> 1 * (mx - mn)" using t assms(6) by (intro mult_right_mono) auto
  then have "fl (t * (mx - mn)) \<le> fl (mx - mn)" using fl_mono[of "t * (mx - mn)" "mx - mn"] by simp
  then have q1: "q \<le> mx - mn" using assms(7) by (simp add: q_def fmul_def D)
  have "fl mn \<le> fl (mn + q)" using q0 by (intro fl_mono) simp
  moreover have "fl (mn + q) \<le> fl mx" using q1 by (intro fl_mono) simp
  ultimately have "mn \<le> fadd mn q \<and> fadd mn q \<le> mx"
    using assms(4,5) by (simp add: fadd_def is_f32_def)
  then show ?thesis by (simp add: rand_range_def Let_def t_def q_def)
qed

lemma spawn_width_bounds:
  assumes "0 \<le> r" "r \<le> RM" "0 < RM"
  shows "40 \<le> rand_range RM r OBSTACLE_MIN_WIDTH OBSTACLE_MAX_WIDTH \<and>
         rand_range RM r OBSTACLE_MIN_WIDTH OBSTACLE_MAX_WIDTH \<le> 140"
  using rand_range_bounds[OF assms, of OBSTACLE_MIN_WIDTH OBSTACLE_MAX_WIDTH]
  by (simp add: OBSTACLE_MIN_WIDTH_def OBSTACLE_MAX_WIDTH_def is_f32_numeral fl_numeral)

lemma expo_9: "512 \<le> \<bar>x\<bar> \<Longrightarrow> \<bar>x\<bar> < 1024 \<Longrightarrow> expo x = 9"
  by (rule expo_eq) simp_all

lemma fl_800_tie: "fl (800 + 1 / 32768) = 800"
  using fl_eq[of 9 "800 + 1 / 32768"] by (simp add: rhe_def)

lemma maxX_props:
  assumes "40 \<le> w" "w \<le> 140"
  shows "660 \<le> fsub (float_of_int WINDOW_WIDTH) w \<and>
         fsub (float_of_int WINDOW_WIDTH) w + w \<le> 800 + 1 / 32768"
proof -
  have m: "fsub (float_of_int WINDOW_WIDTH) w = fl (800 - w)"
    by (simp add: fsub_def float_of_int_def WINDOW_WIDTH_def fl_numeral)
  have "fl 660 \<le> fl (800 - w)" using assms by (intro fl_mono) simp
  then have lo: "660 \<le> fl (800 - w)" by (simp add: fl_numeral)
  have "expo (800 - w) = 9" using assms by (intro expo_9) auto
  then have "ulp (800 - w) = 1 / 16384" by (simp add: ulp_def)
  then have "\<bar>fl (800 - w) - (800 - w)\<bar> \<le> 1 / 32768" using fl_err[of "800 - w"] by simp
  then have "fl (800 - w) + w \<le> 800 + 1 / 32768" by linarith
  then show ?thesis using lo by (simp add: m)
qed

lemma spawn_x_bounds:
  assumes "0 \<le> r" "r \<le> RM" "0 < RM" "40 \<le> w" "w \<le> 140"
  shows "0 \<le> rand_range RM r 0 (fsub (float_of_int WINDOW_WIDTH) w) \<and>
         rand_range RM r 0 (fsub (float_of_int WINDOW_WIDTH) w)
           \<le> fsub (float_of_int WINDOW_WIDTH) w"
proof -
  let ?M = "fsub (float_of_int WINDOW_WIDTH) w"
  have f: "is_f32 ?M" by (simp add: fsub_def is_f32_fl)
  have "0 \<le> ?M" using maxX_props[OF assms(4,5)] by simp
  moreover have "fl (?M - 0) = ?M - 0" using f by (simp add: is_f32_def)
  moreover have "is_f32 0" by (simp add: is_f32_def fl_0)
  ultimately show ?thesis using rand_range_bounds[OF assms(1-3), of 0 ?M] f by blast
qed

text \<open>
  What a successful spawn does guarantee, with both results of \<^verbatim>\<open>rand()\<close> between 0
  and \<^verbatim>\<open>RAND_MAX\<close>: a width between the minimum and the maximum, a position \<open>x\<close>
  between 0 and \<open>maxX\<close>, the single-precision difference of the screen width and the
  width, and \<open>y = - height\<close>.  The sum \<open>x + width\<close> is at most the screen width
  when it is rounded to single precision; the exact sum is at most the screen width
  plus \<open>2 powi (-15)\<close>, the rounding error of \<open>maxX\<close>.
\<close>

lemma spawned_obstacle_geometry:
  assumes "0 \<le> r1" "r1 \<le> RM" "0 \<le> r2" "r2 \<le> RM" "0 < RM"
    and "first_inactive (obstacles g) = Some i"
  shows "let ob = obstacles (spawn_obstacle RM r1 r2 t g) ! i
         in OBSTACLE_MIN_WIDTH \<le> o_w ob \<and> o_w ob \<le> OBSTACLE_MAX_WIDTH \<and>
            0 \<le> o_x ob \<and>
            o_x ob \<le> fsub (float_of_int WINDOW_WIDTH) (o_w ob) \<and>
            fadd (o_x ob) (o_w ob) \<le> of_int WINDOW_WIDTH \<and>
            o_x ob + o_w ob \<le> of_int WINDOW_WIDTH + 1 / 32768 \<and>
            o_y ob = - o_h ob \<and> o_h ob = OBSTACLE_HEIGHT \<and> o_active ob"
proof -
  define wd where "wd = rand_range RM r1 OBSTACLE_MIN_WIDTH OBSTACLE_MAX_WIDTH"
  define xx where "xx = rand_range RM r2 0 (fsub (float_of_int WINDOW_WIDTH) wd)"
  have w: "40 \<le> wd" "wd \<le> 140"
    using spawn_width_bounds[OF assms(1,2,5)] by (simp_all add: wd_def)
  have x: "0 \<le> xx" "xx \<le> fsub (float_of_int WINDOW_WIDTH) wd"
    using spawn_x_bounds[OF assms(3,4,5) w] by (simp_all add: xx_def)
  have ex: "xx + wd \<le> 800 + 1 / 32768" using maxX_props[OF w] x(2) by linarith
  have "fadd xx wd \<le> fl (800 + 1 / 32768)" unfolding fadd_def using ex by (rule fl_mono)
  then have fs: "fadd xx wd \<le> 800" by (simp only: fl_800_tie)
  have i: "i < length (obstacles g)" using first_inactive_Some[OF assms(6)] by simp
  have ob: "obstacles (spawn_obstacle RM r1 r2 t g) ! i =
      \<lparr> o_x = xx, o_y = - OBSTACLE_HEIGHT, o_w = wd, o_h = OBSTACLE_HEIGHT,
        o_speed = fadd OBSTACLE_BASE_SPEED
                    (fmul (fmul OBSTACLE_SPEED_INCREMENT (elapsedTime g)) OBSTACLE_BASE_SPEED),
        o_active = True \<rparr>"
    using i by (simp add: spawn_obstacles_eq[OF assms(6)] wd_def xx_def)
  have ww: "real_of_int WINDOW_WIDTH = 800" by (simp add: WINDOW_WIDTH_def)
  show ?thesis
    unfolding Let_def ob using w x ex fs
    by (simp add: OBSTACLE_MIN_WIDTH_def OBSTACLE_MAX_WIDTH_def ww)
qed

lemma spawned_obstacle_geometry_example:
  "(0::int) \<le> 12345 \<and> (12345::int) \<le> 2147483647 \<and> (0::int) \<le> 67890 \<and>
   (67890::int) \<le> 2147483647 \<and> first_inactive (obstacles playing_game) = Some 0 \<and>
   40 \<le> o_w (obstacles (spawn_obstacle 2147483647 12345 67890 1700 playing_game) ! 0) \<and>
   o_w (obstacles (spawn_obstacle 2147483647 12345 67890 1700 playing_game) ! 0) \<le> 140 \<and>
   0 \<le> o_x (obstacles (spawn_obstacle 2147483647 12345 67890 1700 playing_game) ! 0) \<and>
   o_y (obstacles (spawn_obstacle 2147483647 12345 67890 1700 playing_game) ! 0) = - 20"
proof -
  have r: "(0::int) \<le> 12345" "(12345::int) \<le> 2147483647" "(0::int) \<le> 67890"
    "(67890::int) \<le> 2147483647" "(0::int) < 2147483647"
    by simp_all
  show ?thesis
    using spawned_obstacle_geometry[OF r playing_first_inactive, of 1700] playing_first_inactive
    by (simp add: Let_def OBSTACLE_MIN_WIDTH_def OBSTACLE_MAX_WIDTH_def OBSTACLE_HEIGHT_def)
qed

lemma cex_width: "rand_range 2147483647 9000027 OBSTACLE_MIN_WIDTH OBSTACLE_MAX_WIDTH = 1324453 / 32768"
proof -
  have rm: "float_of_int 2147483647 = 2147483648"
    using fl_eq[of 30 2147483647] by (simp add: float_of_int_def rhe_def)
  have r: "float_of_int 9000027 = 9000027"
    by (simp add: float_of_int_def fl_numeral)
  have t: "fdiv 9000027 2147483648 = 9000027 / 2147483648"
    using fl_eq[of "- 8" "9000027 / 2147483648"] by (simp add: fdiv_def rhe_def)
  have d: "fsub 140 40 = 100" by (simp add: fsub_def fl_numeral)
  have p: "fmul (9000027 / 2147483648) 100 = 7031271 / 16777216"
    using fl_eq[of "- 2" "9000027 / 2147483648 * 100"] by (simp add: fmul_def rhe_def)
  have w: "fadd 40 (7031271 / 16777216) = 1324453 / 32768"
    using fl_eq[of 5 "40 + 7031271 / 16777216"] by (simp add: fadd_def rhe_def)
  show ?thesis
    by (simp add: rand_range_def Let_def rm r t d p w OBSTACLE_MIN_WIDTH_def
        OBSTACLE_MAX_WIDTH_def)
qed

lemma cex_maxX: "fsub (float_of_int WINDOW_WIDTH) (1324453 / 32768) = 6222487 / 8192"
  using fl_eq[of 9 "800 - 1324453 / 32768"]
  by (simp add: fsub_def float_of_int_def WINDOW_WIDTH_def fl_numeral rhe_def)

lemma cex_x: "rand_range 2147483647 2147483647 0 (6222487 / 8192) = 6222487 / 8192"
proof -
  have m: "fl (6222487 / 8192) = 6222487 / 8192"
    using fl_eq[of 9 "6222487 / 8192"] by (simp add: rhe_def)
  have rm: "float_of_int 2147483647 = 2147483648"
    using fl_eq[of 30 2147483647] by (simp add: float_of_int_def rhe_def)
  show ?thesis
    by (simp add: rand_range_def Let_def rm fdiv_def fsub_def fmul_def fadd_def fl_1 m)
qed

text \<open>
  C8.  A spawned obstacle is to lie fully on the screen horizontally, \<open>0 \<le> x\<close> and
  \<open>x + width \<le> screenWidth\<close>, for every value the random source can produce.  The
  code computes \<open>maxX\<close> as the screen width minus the width for this purpose, but the
  subtraction is rounded, and where it rounds up an obstacle placed at \<open>maxX\<close> reaches
  beyond the screen.  With \<^verbatim>\<open>RAND_MAX\<close> \<open>= 2147483647\<close> and \<^verbatim>\<open>rand()\<close>
  returning 9000027 and then 2147483647, the width is \<open>1324453 / 32768\<close> (about
  40.4191), \<open>800 - width\<close> lies halfway between two single-precision numbers and
  rounds up to \<open>maxX = 6222487 / 8192\<close>, the second draw gives \<open>x = maxX\<close>, and
  \<open>x + width\<close> is \<open>800 + 1 / 32768\<close>: the obstacle written by
  \<^verbatim>\<open>spawn_obstacle\<close> does not satisfy \<open>x + width \<le> screenWidth\<close>.
\<close>

theorem spawned_obstacle_off_screen:
  "first_inactive (obstacles playing_game) = Some 0 \<and>
   o_w (obstacles (spawn_obstacle 2147483647 9000027 2147483647 1700 playing_game) ! 0)
     = 1324453 / 32768 \<and>
   o_x (obstacles (spawn_obstacle 2147483647 9000027 2147483647 1700 playing_game) ! 0)
     = 6222487 / 8192 \<and>
   \<not> (o_x (obstacles (spawn_obstacle 2147483647 9000027 2147483647 1700 playing_game) ! 0) +
       o_w (obstacles (spawn_obstacle 2147483647 9000027 2147483647 1700 playing_game) ! 0)
       \<le> of_int WINDOW_WIDTH)"
proof -
  have "0 < length (obstacles playing_game)" by (simp add: playing_game_literal)
  moreover have "real_of_int WINDOW_WIDTH = 800" by (simp add: WINDOW_WIDTH_def)
  ultimately show ?thesis
    by (simp add: spawn_obstacles_eq[OF playing_first_inactive] playing_first_inactive
        cex_width cex_maxX cex_x)
qed

section \<open>Score\<close>

lemma f32_below_twentieth:
  assumes "is_f32 dt" "0 \<le> dt" "dt < 1 / 20"
  shows "dt * 20 \<le> 16777215 / 16777216"
proof (cases "dt < 1 / 32")
  case True
  then show ?thesis by simp
next
  case False
  then have "expo dt = - 5" using assms by (intro expo_eq) auto
  then obtain j :: int where j: "dt = of_int j * 2 powi (- 5 - 23)"
    using f32_grid[OF assms(1)] by blast
  then have dj: "dt = of_int j / 268435456" by simp
  then have "real_of_int j < 268435456 / 20" using assms(3) by simp
  then have "real_of_int j < 13421773" by simp
  then have "j < 13421773" by linarith
  then have "j \<le> 13421772" by simp
  then have "real_of_int j \<le> 13421772" by linarith
  then show ?thesis by (simp add: dj)
qed

lemma f32_below_tenth:
  assumes "is_f32 dt" "0 \<le> dt" "dt < 1 / 10"
  shows "dt * 20 \<le> 16777215 / 8388608"
proof (cases "dt < 1 / 16")
  case True
  then show ?thesis by simp
next
  case False
  then have "expo dt = - 4" using assms by (intro expo_eq) auto
  then obtain j :: int where j: "dt = of_int j * 2 powi (- 4 - 23)"
    using f32_grid[OF assms(1)] by blast
  then have dj: "dt = of_int j / 134217728" by simp
  then have "real_of_int j < 134217728 / 10" using assms(3) by simp
  then have "real_of_int j < 13421773" by simp
  then have "j < 13421773" by linarith
  then have "j \<le> 13421772" by simp
  then have "real_of_int j \<le> 13421772" by linarith
  then show ?thesis by (simp add: dj)
qed

lemma fl_below_one: "fl (16777215 / 16777216) = 16777215 / 16777216"
  using fl_eq[of "- 1" "16777215 / 16777216"] by (simp add: rhe_def)

lemma fl_below_two: "fl (16777215 / 8388608) = 16777215 / 8388608"
  using fl_eq[of 0 "16777215 / 8388608"] by (simp add: rhe_def)

lemma fl_tenth: "fl (1 / 10) = 13421773 / 134217728"
  using fl_eq[of "- 4" "1 / 10"] by (simp add: rhe_def)

lemma fl_tenth_times_20: "fl (13421773 / 134217728 * 20) = 2"
  using fl_eq[of 1 "13421773 / 134217728 * 20"] by (simp add: rhe_def)

lemma score_step_zero:
  assumes "is_f32 dt" "0 \<le> dt" "dt < 1 / 20"
  shows "int_of_float (fmul dt 20) = 0"
proof -
  have "0 \<le> fl (dt * 20)" using assms(2) by (intro fl_nonneg) simp
  moreover have "fl (dt * 20) \<le> fl (16777215 / 16777216)"
    using f32_below_twentieth[OF assms] by (rule fl_mono)
  then have "fl (dt * 20) < 1" by (simp add: fl_below_one)
  ultimately have "\<lfloor>fl (dt * 20)\<rfloor> = 0" by (simp add: floor_eq_iff)
  moreover have "0 \<le> fl (dt * 20)" using assms(2) by (intro fl_nonneg) simp
  ultimately show ?thesis by (simp add: int_of_float_def fmul_def)
qed

lemma score_step_floor:
  assumes "is_f32 dt" "0 \<le> dt" "dt \<le> fl (1 / 10)"
  shows "int_of_float (fmul dt 20) = \<lfloor>dt * 20\<rfloor>"
proof -
  consider "dt < 1 / 20" | "1 / 20 \<le> dt" "dt < 1 / 10" | "1 / 10 \<le> dt" by linarith
  then show ?thesis
  proof cases
    case 1
    then have "int_of_float (fmul dt 20) = 0" using assms by (intro score_step_zero)
    moreover have "\<lfloor>dt * 20\<rfloor> = 0" using 1 assms(2) by (simp add: floor_eq_iff)
    ultimately show ?thesis by simp
  next
    case 2
    have "fl 1 \<le> fl (dt * 20)" using 2(1) by (intro fl_mono) simp
    then have lo: "1 \<le> fl (dt * 20)" by (simp add: fl_1)
    have "fl (dt * 20) \<le> fl (16777215 / 8388608)"
      using f32_below_tenth[OF assms(1,2) 2(2)] by (rule fl_mono)
    then have hi: "fl (dt * 20) < 2" by (simp add: fl_below_two)
    have "\<lfloor>fl (dt * 20)\<rfloor> = 1" using lo hi by (simp add: floor_eq_iff)
    moreover have "\<lfloor>dt * 20\<rfloor> = 1" using 2 by (simp add: floor_eq_iff)
    ultimately show ?thesis using lo by (simp add: int_of_float_def fmul_def)
  next
    case 3
    have "fl 2 \<le> fl (dt * 20)" using 3 by (intro fl_mono) simp
    then have lo: "2 \<le> fl (dt * 20)" by (simp add: fl_numeral)
    have d: "dt \<le> 13421773 / 134217728" using assms(3) by (simp add: fl_tenth)
    then have "dt * 20 \<le> 13421773 / 134217728 * 20" by simp
    then have "fl (dt * 20) \<le> fl (13421773 / 134217728 * 20)" by (rule fl_mono)
    then have hi: "fl (dt * 20) \<le> 2" by (simp only: fl_tenth_times_20)
    have "fl (dt * 20) = 2" using lo hi by simp
    moreover have "\<lfloor>dt * 20\<rfloor> = 2" using 3 d by (simp add: floor_eq_iff)
    ultimately show ?thesis by (simp add: int_of_float_def fmul_def)
  qed
qed

lemma update_one_snd: "snd (update_one dt ob sc) = (if falls dt ob then sc + 10 else sc)"
  by (simp add: update_one_def falls_def Let_def)

lemma loop_snd: "snd (update_obstacles_loop dt obs sc) = sc + 10 * int (dodged dt obs)"
proof (induction obs arbitrary: sc)
  case Nil
  then show ?case by (simp add: dodged_def)
next
  case (Cons ob obs)
  have "snd (update_obstacles_loop dt (ob # obs) sc) =
        snd (update_obstacles_loop dt obs (snd (update_one dt ob sc)))"
    by (simp add: split_beta)
  also have "\<dots> = snd (update_one dt ob sc) + 10 * int (dodged dt obs)" by (rule Cons.IH)
  finally show ?case by (simp add: update_one_snd dodged_def)
qed

lemma update_obstacles_score:
  "score (update_obstacles dt g) = score g + 10 * int (dodged dt (obstacles g))"
  using loop_snd[of dt "obstacles g" "score g"]
  by (simp add: update_obstacles_def split_beta)

lemma advance_world_score:
  "score (advance_world RM inp dt g) =
     score g + int_of_float (fmul dt 20) + 10 * int (dodged dt (obstacles g))"
  by (simp add: advance_world_def Let_def spawn_obstacle_fields update_obstacles_score
      update_player_fields)

lemma update_game_score:
  "state g = GAME_STATE_PLAYING \<Longrightarrow>
   score (fst (update_game RM inp dt (g, w))) =
     score g + int_of_float (fmul dt 20) + 10 * int (dodged dt (obstacles g))"
  by (simp add: update_game_def Let_def advance_world_score)

text \<open>A tick of PLAYING with no active obstacle and no spawn due.\<close>

lemma quiet_tick:
  assumes "state g = GAME_STATE_PLAYING" "\<forall>ob \<in> set (obstacles g). \<not> o_active ob"
    "float_of_u32 (t_now inp - lastSpawnTicks g) < spawnIntervalMs g"
  shows "snd (update_game RM inp dt (g, w)) = w"
    "state (fst (update_game RM inp dt (g, w))) = GAME_STATE_PLAYING"
    "obstacles (fst (update_game RM inp dt (g, w))) = obstacles g"
    "lastSpawnTicks (fst (update_game RM inp dt (g, w))) = lastSpawnTicks g"
    "spawnIntervalMs (fst (update_game RM inp dt (g, w))) = spawnIntervalMs g"
    "score (fst (update_game RM inp dt (g, w))) = score g + int_of_float (fmul dt 20)"
proof -
  define g3 where
    "g3 = update_player dt
            (g\<lparr>elapsedTime := fadd (elapsedTime g) dt,
               score := score g + int_of_float (fmul dt 20)\<rparr>)"
  have o3: "obstacles g3 = obstacles g" by (simp add: g3_def update_player_fields)
  have u: "update_obstacles dt g3 = g3"
    using loop_all_inactive[OF assms(2), of dt "score g3"]
    by (simp add: update_obstacles_def o3)
  have adv: "advance_world RM inp dt g = g3"
    using assms(3) u
    by (simp add: advance_world_def Let_def g3_def[symmetric])
      (simp add: g3_def update_player_fields)
  have nc: "\<not> check_collisions g3"
    using check_all_inactive[OF assms(2)] by (simp add: check_collisions_def o3)
  have ug: "update_game RM inp dt (g, w) = (g3, w)"
    using assms(1) nc by (simp add: update_game_def Let_def adv)
  show "snd (update_game RM inp dt (g, w)) = w"
    "state (fst (update_game RM inp dt (g, w))) = GAME_STATE_PLAYING"
    "obstacles (fst (update_game RM inp dt (g, w))) = obstacles g"
    "lastSpawnTicks (fst (update_game RM inp dt (g, w))) = lastSpawnTicks g"
    "spawnIntervalMs (fst (update_game RM inp dt (g, w))) = spawnIntervalMs g"
    "score (fst (update_game RM inp dt (g, w))) = score g + int_of_float (fmul dt 20)"
    using assms(1) by (simp_all add: ug o3, simp_all add: g3_def update_player_fields)
qed

lemma quiet_run:
  assumes "state g = GAME_STATE_PLAYING" "\<forall>ob \<in> set (obstacles g). \<not> o_active ob"
    "\<forall>inp \<in> set inps. float_of_u32 (t_now inp - lastSpawnTicks g) < spawnIntervalMs g"
  shows "score (fst (run_ticks RM dt inps (g, w))) =
           score g + int (length inps) * int_of_float (fmul dt 20) \<and>
         state (fst (run_ticks RM dt inps (g, w))) = GAME_STATE_PLAYING"
  using assms
proof (induction inps arbitrary: g w)
  case Nil
  then show ?case by simp
next
  case (Cons inp inps)
  define g' where "g' = fst (update_game RM inp dt (g, w))"
  have q: "float_of_u32 (t_now inp - lastSpawnTicks g) < spawnIntervalMs g"
    using Cons.prems(3) by simp
  note t = quiet_tick[OF Cons.prems(1,2) q, of RM dt w]
  have ug: "update_game RM inp dt (g, w) = (g', w)"
    using t(1) by (simp add: g'_def prod_eq_iff)
  have "score (fst (run_ticks RM dt inps (g', w))) =
           score g' + int (length inps) * int_of_float (fmul dt 20) \<and>
         state (fst (run_ticks RM dt inps (g', w))) = GAME_STATE_PLAYING"
    using Cons.prems t by (intro Cons.IH) (simp_all add: g'_def)
  then show ?case using t(6) by (simp add: ug g'_def[symmetric] algebra_simps)
qed

lemma frame_dt_range:
  "is_f32 (frame_dt prev cur) \<and> 0 \<le> frame_dt prev cur \<and> frame_dt prev cur \<le> fl (1 / 10)"
proof -
  define dt0 where "dt0 = fdiv (float_of_u32 (cur - prev)) 1000"
  have "0 \<le> float_of_u32 (cur - prev)"
    unfolding float_of_u32_def by (rule fl_nonneg) (rule of_nat_0_le_iff)
  then have "0 \<le> dt0" unfolding dt0_def fdiv_def by (intro fl_nonneg) simp
  moreover have "is_f32 dt0" by (simp add: dt0_def fdiv_def is_f32_fl)
  moreover have "(0::real) \<le> fl (1 / 10)" by (rule fl_nonneg) simp
  moreover have "frame_dt prev cur = (if dt0 > fl (1 / 10) then fl (1 / 10) else dt0)"
    by (simp add: frame_dt_def Let_def dt0_def)
  ultimately show ?thesis by (simp add: is_f32_fl)
qed

text \<open>
  C9.  A tick of PLAYING adds to the score the time-based points
  \<^verbatim>\<open>(int)(dt * 20.0f)\<close>, which do not depend on the obstacles, and 10 for each
  obstacle that leaves the screen in this tick.  For a single-precision time step
  between 0 and \<^verbatim>\<open>0.1f\<close> the time-based points are \<open>\<lfloor>dt * 20\<rfloor>\<close>; every time step
  the main loop computes from two clock readings is in that range, because of its
  clamp.  (Beyond the clamp the rounded product can reach the next integer: at
  \<open>dt\<close> = \<^verbatim>\<open>0.35f\<close>, just below 0.35, it is 7.)  Ten ticks with \<open>dt\<close> = \<^verbatim>\<open>0.1f\<close>
  from score 0, with no active obstacle and no spawn falling due, end with score 20,
  still in PLAYING.
\<close>

theorem time_score_per_tick:
  "(state g = GAME_STATE_PLAYING \<longrightarrow>
      score (fst (update_game RM inp dt (g, w))) =
        score g + int_of_float (fmul dt 20) + 10 * int (dodged dt (obstacles g))) \<and>
   (is_f32 dt \<and> 0 \<le> dt \<and> dt \<le> fl (1 / 10) \<longrightarrow> int_of_float (fmul dt 20) = \<lfloor>dt * 20\<rfloor>) \<and>
   int_of_float (fmul (frame_dt prev cur) 20) = \<lfloor>frame_dt prev cur * 20\<rfloor> \<and>
   (state g = GAME_STATE_PLAYING \<and> score g = 0 \<and> length inps = 10 \<and>
    (\<forall>ob \<in> set (obstacles g). \<not> o_active ob) \<and>
    (\<forall>inp \<in> set inps. float_of_u32 (t_now inp - lastSpawnTicks g) < spawnIntervalMs g) \<longrightarrow>
      score (fst (run_ticks RM (fl (1 / 10)) inps (g, w))) = 20 \<and>
      state (fst (run_ticks RM (fl (1 / 10)) inps (g, w))) = GAME_STATE_PLAYING)"
proof -
  have a: "state g = GAME_STATE_PLAYING \<longrightarrow>
      score (fst (update_game RM inp dt (g, w))) =
        score g + int_of_float (fmul dt 20) + 10 * int (dodged dt (obstacles g))"
    using update_game_score[of g RM inp dt w] by blast
  have b: "is_f32 dt \<and> 0 \<le> dt \<and> dt \<le> fl (1 / 10) \<longrightarrow> int_of_float (fmul dt 20) = \<lfloor>dt * 20\<rfloor>"
    using score_step_floor[of dt] by blast
  have "fmul (fl (1 / 10)) 20 = 2"
    by (simp only: fmul_def fl_tenth fl_tenth_times_20)
  then have two: "int_of_float (fmul (fl (1 / 10)) 20) = 2"
    by (simp add: int_of_float_def)
  have c: "state g = GAME_STATE_PLAYING \<and> score g = 0 \<and> length inps = 10 \<and>
    (\<forall>ob \<in> set (obstacles g). \<not> o_active ob) \<and>
    (\<forall>inp \<in> set inps. float_of_u32 (t_now inp - lastSpawnTicks g) < spawnIntervalMs g) \<longrightarrow>
      score (fst (run_ticks RM (fl (1 / 10)) inps (g, w))) = 20 \<and>
      state (fst (run_ticks RM (fl (1 / 10)) inps (g, w))) = GAME_STATE_PLAYING"
  proof
    assume h: "state g = GAME_STATE_PLAYING \<and> score g = 0 \<and> length inps = 10 \<and>
      (\<forall>ob \<in> set (obstacles g). \<not> o_active ob) \<and>
      (\<forall>inp \<in> set inps. float_of_u32 (t_now inp - lastSpawnTicks g) < spawnIntervalMs g)"
    then have "score (fst (run_ticks RM (fl (1 / 10)) inps (g, w))) =
           score g + int (length inps) * int_of_float (fmul (fl (1 / 10)) 20) \<and>
         state (fst (run_ticks RM (fl (1 / 10)) inps (g, w))) = GAME_STATE_PLAYING"
      by (intro quiet_run) auto
    then show "score (fst (run_ticks RM (fl (1 / 10)) inps (g, w))) = 20 \<and>
      state (fst (run_ticks RM (fl (1 / 10)) inps (g, w))) = GAME_STATE_PLAYING"
      using h by (simp add: two)
  qed
  have d: "int_of_float (fmul (frame_dt prev cur) 20) = \<lfloor>frame_dt prev cur * 20\<rfloor>"
    using frame_dt_range[of prev cur] by (intro score_step_floor) auto
  show ?thesis using a b c d by (simp only: simp_thms)
qed

theorem time_score_per_tick_witness:
  "state playing_game = GAME_STATE_PLAYING \<and> score playing_game = 0 \<and>
   length (replicate 10 idle_input) = 10 \<and>
   list_all (\<lambda>ob. \<not> o_active ob) (obstacles playing_game) \<and>
   list_all (\<lambda>inp. float_of_u32 (t_now inp - lastSpawnTicks playing_game)
                    < spawnIntervalMs playing_game) (replicate 10 idle_input) \<and>
   score (fst (run_ticks 2147483647 (fl (1 / 10)) (replicate 10 idle_input)
                 (playing_game, empty_world))) = 20 \<and>
   is_f32 (fl (1 / 10)) \<and> (0::real) \<le> fl (1 / 10) \<and>
   int_of_float (fmul (fl (1 / 10)) 20) = \<lfloor>fl (1 / 10) * 20\<rfloor> \<and>
   score (fst (update_game 2147483647 idle_input (fl (1 / 10)) (playing_game, empty_world))) = 2"
proof -
  have q: "float_of_u32 (t_now idle_input - lastSpawnTicks playing_game)
             < spawnIntervalMs playing_game"
    by (simp add: idle_input_def playing_game_literal float_of_u32_def fl_0)
  have i: "\<forall>ob \<in> set (obstacles playing_game). \<not> o_active ob"
    by (simp add: playing_game_literal zero_obstacle_def)
  have d: "dodged (fl (1 / 10)) (obstacles playing_game) = 0"
    using i by (simp add: dodged_def falls_def)
  have f: "is_f32 (fl (1 / 10))" "(0::real) \<le> fl (1 / 10)"
    by (rule is_f32_fl) (simp add: fl_tenth)
  have two: "\<lfloor>fl (1 / 10) * 20 :: real\<rfloor> = 2" by (simp add: fl_tenth)
  show ?thesis
    using time_score_per_tick[of playing_game 2147483647 idle_input "fl (1 / 10)" empty_world
        1000 1100 "replicate 10 idle_input"] q i d f two
    by (simp add: playing_game_state list_all_iff playing_game_literal)
qed

section \<open>Frame time\<close>

lemma fl_49_ms: "fl (49 / 1000) = 13153337 / 268435456"
  using fl_eq[of "- 5" "49 / 1000"] by (simp add: rhe_def)

lemma frame_dt_small:
  assumes "unat (cur - prev) < 50"
  shows "frame_dt prev cur = fl (real (unat (cur - prev)) / 1000) \<and>
         0 \<le> frame_dt prev cur \<and> frame_dt prev cur < 1 / 20 \<and> is_f32 (frame_dt prev cur)"
proof -
  define d where "d = unat (cur - prev)"
  have d50: "d < 50" using assms by (simp add: d_def)
  have "fl (of_int (int d)) = of_int (int d)" using d50 by (intro fl_of_int) simp
  then have c: "float_of_u32 (cur - prev) = real d"
    by (simp add: float_of_u32_def d_def)
  have "real d / 1000 \<le> 49 / 1000" using d50 by simp
  then have "fl (real d / 1000) \<le> fl (49 / 1000)" by (rule fl_mono)
  then have hi: "fl (real d / 1000) < 1 / 20" by (simp add: fl_49_ms)
  have lo: "0 \<le> fl (real d / 1000)" by (intro fl_nonneg) simp
  have t: "\<not> fl (real d / 1000) > fl (1 / 10)" using hi by (simp add: fl_tenth)
  have eq: "frame_dt prev cur = fl (real d / 1000)"
    using t by (simp add: frame_dt_def Let_def c fdiv_def)
  show ?thesis unfolding eq d_def[symmetric] using lo hi by (simp add: is_f32_fl)
qed

text \<open>
  C10.  For a single-precision time step with \<open>0 \<le> dt < 0.05\<close> the time-based points
  \<^verbatim>\<open>(int)(dt * 20.0f)\<close> are 0, so a tick of PLAYING with such a step changes the score
  only by 10 for each obstacle that leaves the screen.  In the main loop every frame
  shorter than 50 ms gives such a step, in particular a frame of
  \<^verbatim>\<open>FRAME_TIME_MS\<close> = 1000 / 60 = 16 ms.
\<close>

theorem no_time_score_below_50ms:
  "(is_f32 dt \<and> 0 \<le> dt \<and> dt < 1 / 20 \<longrightarrow>
      int_of_float (fmul dt 20) = 0 \<and>
      (state g = GAME_STATE_PLAYING \<longrightarrow>
         score (fst (update_game RM inp dt (g, w))) =
           score g + 10 * int (dodged dt (obstacles g)))) \<and>
   (unat (cur - prev) < 50 \<longrightarrow>
      is_f32 (frame_dt prev cur) \<and> 0 \<le> frame_dt prev cur \<and> frame_dt prev cur < 1 / 20 \<and>
      int_of_float (fmul (frame_dt prev cur) 20) = 0) \<and>
   int_of_float (fmul (frame_dt prev (prev + of_nat FRAME_TIME_MS)) 20) = 0"
proof -
  have a: "is_f32 dt \<and> 0 \<le> dt \<and> dt < 1 / 20 \<longrightarrow>
      int_of_float (fmul dt 20) = 0 \<and>
      (state g = GAME_STATE_PLAYING \<longrightarrow>
         score (fst (update_game RM inp dt (g, w))) =
           score g + 10 * int (dodged dt (obstacles g)))"
    using score_step_zero[of dt] update_game_score[of g RM inp dt w] by simp
  have b: "unat (c - l) < 50 \<longrightarrow>
      is_f32 (frame_dt l c) \<and> 0 \<le> frame_dt l c \<and> frame_dt l c < 1 / 20 \<and>
      int_of_float (fmul (frame_dt l c) 20) = 0" for c l
    using frame_dt_small[of c l] score_step_zero[of "frame_dt l c"] by blast
  have "unat ((prev + of_nat FRAME_TIME_MS) - prev) < 50"
    by (simp add: FRAME_TIME_MS_def TARGET_FPS_def)
  then have c: "int_of_float (fmul (frame_dt prev (prev + of_nat FRAME_TIME_MS)) 20) = 0"
    using b by blast
  show ?thesis using a b[of cur prev] c by (simp only: simp_thms)
qed

lemma fl_64th: "fl (1 / 64) = 1 / 64"
  using fl_eq[of "- 6" "1 / 64"] by (simp add: rhe_def)

theorem no_time_score_below_50ms_witness:
  "is_f32 (1 / 64) \<and> (0::real) \<le> 1 / 64 \<and> (1 / 64 :: real) < 1 / 20 \<and>
   int_of_float (fmul (1 / 64) 20) = 0 \<and>
   state playing_game = GAME_STATE_PLAYING \<and> score playing_game = 0 \<and>
   score (fst (update_game 2147483647 idle_input (1 / 64) (playing_game, empty_world))) = 0 \<and>
   unat (1017 - 1000 :: 32 word) < 50 \<and>
   frame_dt 1000 1017 < 1 / 20 \<and>
   int_of_float (fmul (frame_dt 1000 1017) 20) = 0"
proof -
  have f: "is_f32 (1 / 64)" by (simp add: is_f32_def fl_64th)
  have i: "\<forall>ob \<in> set (obstacles playing_game). \<not> o_active ob"
    by (simp add: playing_game_literal zero_obstacle_def)
  have d: "dodged (1 / 64) (obstacles playing_game) = 0"
    using i by (simp add: dodged_def falls_def)
  have s: "score playing_game = 0" by (simp add: playing_game_literal)
  show ?thesis
    using no_time_score_below_50ms[of "1 / 64" playing_game 2147483647 idle_input empty_world
        1017 1000] f d s
    by (simp add: playing_game_state)
qed

section \<open>Spawn interval over a run\<close>

lemma key_down_interval:
  "spawnIntervalMs (handle_key_down t g k) =
     (if (k = SDLK_RETURN \<or> k = SDLK_KP_ENTER) \<and>
         (state g = GAME_STATE_MENU \<or> state g = GAME_STATE_GAME_OVER)
      then OBSTACLE_BASE_INTERVAL else spawnIntervalMs g)"
  by (cases k) (simp_all add: reset_gameplay_fields)

lemma key_up_interval: "spawnIntervalMs (handle_key_up g k) = spawnIntervalMs g"
  by (cases k) simp_all

lemma process_event_interval:
  "spawnIntervalMs (process_event t g e) =
     (if starts_run (EventStep t e) g then OBSTACLE_BASE_INTERVAL else spawnIntervalMs g)"
  by (cases e) (simp_all add: key_down_interval key_up_interval)

lemma spawn_interval_cases:
  "spawnIntervalMs (spawn_obstacle RM r1 r2 t g) =
     (if first_inactive (obstacles g) \<noteq> None
      then max OBSTACLE_MIN_INTERVAL (fmul (spawnIntervalMs g) OBSTACLE_INTERVAL_DECAY)
      else spawnIntervalMs g)"
  by (auto simp: spawn_obstacle_def Let_def max_def)

lemma advance_world_interval:
  "spawnIntervalMs (advance_world RM inp dt g) =
     (if spawnIntervalMs g \<le> float_of_u32 (t_now inp - lastSpawnTicks g) \<and>
         first_inactive (obstacles (update_obstacles dt g)) \<noteq> None
      then max OBSTACLE_MIN_INTERVAL (fmul (spawnIntervalMs g) OBSTACLE_INTERVAL_DECAY)
      else spawnIntervalMs g)"
proof -
  define g3 where
    "g3 = update_player dt
            (g\<lparr>elapsedTime := fadd (elapsedTime g) dt,
               score := score g + int_of_float (fmul dt 20)\<rparr>)"
  have o3: "obstacles g3 = obstacles g" by (simp add: g3_def update_player_fields)
  have o4: "obstacles (update_obstacles dt g3) = obstacles (update_obstacles dt g)"
    by (simp only: update_obstacles_obs o3)
  have i4: "spawnIntervalMs (update_obstacles dt g3) = spawnIntervalMs g"
    "lastSpawnTicks (update_obstacles dt g3) = lastSpawnTicks g"
    by (simp_all add: g3_def update_obstacles_fields update_player_fields)
  have "advance_world RM inp dt g =
      (if spawnIntervalMs g \<le> float_of_u32 (t_now inp - lastSpawnTicks g)
       then spawn_obstacle RM (t_rand_w inp) (t_rand_x inp) (t_spawn_now inp)
              (update_obstacles dt g3)
       else update_obstacles dt g3)"
    by (simp add: advance_world_def Let_def g3_def[symmetric] i4)
  then show ?thesis by (simp add: spawn_interval_cases o4 i4)
qed

lemma update_game_interval:
  "spawnIntervalMs (fst (update_game RM inp dt (g, w))) =
     (if spawns (TickStep inp dt) g
      then max OBSTACLE_MIN_INTERVAL (fmul (spawnIntervalMs g) OBSTACLE_INTERVAL_DECAY)
      else spawnIntervalMs g)"
proof (cases "state g = GAME_STATE_PLAYING")
  case True
  then have "spawnIntervalMs (fst (update_game RM inp dt (g, w))) =
             spawnIntervalMs (advance_world RM inp dt g)"
    by (simp add: update_game_def Let_def)
  then show ?thesis using True by (simp only: advance_world_interval spawns.simps simp_thms)
next
  case False
  then show ?thesis by (simp add: update_game_idle)
qed

lemma step_interval:
  "spawnIntervalMs (fst (step RM s (g, w))) =
     (if starts_run s g then OBSTACLE_BASE_INTERVAL
      else if spawns s g
      then max OBSTACLE_MIN_INTERVAL (fmul (spawnIntervalMs g) OBSTACLE_INTERVAL_DECAY)
      else spawnIntervalMs g)"
proof (cases s)
  case (EventStep t e)
  then show ?thesis by (simp add: process_event_interval)
next
  case (TickStep inp dt)
  then show ?thesis using update_game_interval[of RM inp dt g w] by simp
qed

lemma decay_props:
  assumes "interval_ok g"
  shows "OBSTACLE_MIN_INTERVAL
           \<le> max OBSTACLE_MIN_INTERVAL (fmul (spawnIntervalMs g) OBSTACLE_INTERVAL_DECAY)"
    "max OBSTACLE_MIN_INTERVAL (fmul (spawnIntervalMs g) OBSTACLE_INTERVAL_DECAY)
           \<le> spawnIntervalMs g"
    "is_f32 (max OBSTACLE_MIN_INTERVAL (fmul (spawnIntervalMs g) OBSTACLE_INTERVAL_DECAY))"
proof -
  let ?I = "spawnIntervalMs g"
  have f: "is_f32 ?I" and m: "OBSTACLE_MIN_INTERVAL \<le> ?I"
    using assms by (simp_all add: interval_ok_def)
  have pos: "0 \<le> ?I" using m by (simp add: OBSTACLE_MIN_INTERVAL_def)
  have "?I * OBSTACLE_INTERVAL_DECAY \<le> ?I * 1"
    using decay_bounds pos by (intro mult_left_mono) auto
  then have "fl (?I * OBSTACLE_INTERVAL_DECAY) \<le> fl ?I"
    using fl_mono[of "?I * OBSTACLE_INTERVAL_DECAY" ?I] by simp
  then have le: "fmul ?I OBSTACLE_INTERVAL_DECAY \<le> ?I"
    using f by (simp add: fmul_def is_f32_def)
  show "OBSTACLE_MIN_INTERVAL \<le> max OBSTACLE_MIN_INTERVAL (fmul ?I OBSTACLE_INTERVAL_DECAY)"
    by simp
  show "max OBSTACLE_MIN_INTERVAL (fmul ?I OBSTACLE_INTERVAL_DECAY) \<le> ?I"
    using le m by simp
  show "is_f32 (max OBSTACLE_MIN_INTERVAL (fmul ?I OBSTACLE_INTERVAL_DECAY))"
    by (simp add: max_def fmul_def is_f32_fl OBSTACLE_MIN_INTERVAL_def is_f32_numeral)
qed

lemma base_interval_ok:
  "is_f32 OBSTACLE_BASE_INTERVAL" "OBSTACLE_MIN_INTERVAL \<le> OBSTACLE_BASE_INTERVAL"
  by (simp_all add: OBSTACLE_BASE_INTERVAL_def OBSTACLE_MIN_INTERVAL_def is_f32_numeral)

lemma step_keeps_ok:
  assumes "interval_ok g"
  shows "interval_ok (fst (step RM s (g, w)))"
  using decay_props[OF assms] assms base_interval_ok
  by (simp add: interval_ok_def step_interval)

lemma step_same_run:
  assumes "interval_ok g" "\<not> starts_run s g"
  shows "OBSTACLE_MIN_INTERVAL \<le> spawnIntervalMs (fst (step RM s (g, w))) \<and>
         spawnIntervalMs (fst (step RM s (g, w))) \<le> spawnIntervalMs g"
  using decay_props[OF assms(1)] assms
  by (simp add: interval_ok_def step_interval)

lemma run_same_run:
  assumes "interval_ok (fst gw)" "same_run RM ss gw"
  shows "interval_ok (fst (run_steps RM ss gw)) \<and>
         spawnIntervalMs (fst (run_steps RM ss gw)) \<le> spawnIntervalMs (fst gw)"
  using assms
proof (induction ss arbitrary: gw)
  case Nil
  then show ?case by simp
next
  case (Cons s ss)
  obtain g w where gw: "gw = (g, w)" by (cases gw)
  have ok: "interval_ok g" and ns: "\<not> starts_run s g"
    and rest: "same_run RM ss (step RM s (g, w))"
    using Cons.prems by (simp_all add: gw)
  have ok': "interval_ok (fst (step RM s (g, w)))" using ok by (rule step_keeps_ok)
  have le: "spawnIntervalMs (fst (step RM s (g, w))) \<le> spawnIntervalMs g"
    using step_same_run[OF ok ns] by simp
  have "interval_ok (fst (run_steps RM ss (step RM s (g, w)))) \<and>
        spawnIntervalMs (fst (run_steps RM ss (step RM s (g, w))))
          \<le> spawnIntervalMs (fst (step RM s (g, w)))"
    using ok' rest by (rule Cons.IH)
  then show ?case using le by (simp add: gw)
qed

lemma run_keeps_ok:
  assumes "interval_ok (fst gw)"
  shows "interval_ok (fst (run_steps RM ss gw))"
  using assms
proof (induction ss arbitrary: gw)
  case Nil
  then show ?case by simp
next
  case (Cons s ss)
  obtain g w where gw: "gw = (g, w)" by (cases gw)
  have "interval_ok (fst (step RM s (g, w)))"
    using Cons.prems by (intro step_keeps_ok) (simp add: gw)
  then have "interval_ok (fst (run_steps RM ss (step RM s (g, w))))" by (rule Cons.IH)
  then show ?case by (simp add: gw)
qed

lemma init_game_ok: "interval_ok (init_game t w)"
  using base_interval_ok by (simp add: interval_ok_def init_game_def reset_gameplay_fields)


text \<open>
  C6.  The interval changes in two places only: the press of Enter that starts a run
  sets it to 700, and a tick that spawns replaces it by its rounded product with the
  decay factor, raised to the minimum of 140 when it falls below; every other step of
  the main loop (any other event, a tick without a successful spawn) leaves it as it
  is.  The interval is always a single-precision number not below the minimum: so it
  is after \<^verbatim>\<open>init_game\<close>, and every step keeps it so.  Hence a step inside a run
  gives an interval between the minimum and the interval before, and so does every
  sequence of steps inside a run: from one spawn of a run to any later one the
  interval does not grow and never drops below the minimum.  The same holds of
  \<^verbatim>\<open>spawn_obstacle\<close> called on its own with a free slot, and \<^verbatim>\<open>reset_gameplay\<close>
  gives a good interval.
\<close>

theorem spawn_interval_decays:
  "spawnIntervalMs (fst (step RM s (g, w))) =
     (if starts_run s g then OBSTACLE_BASE_INTERVAL
      else if spawns s g
      then max OBSTACLE_MIN_INTERVAL (fmul (spawnIntervalMs g) OBSTACLE_INTERVAL_DECAY)
      else spawnIntervalMs g) \<and>
   (interval_ok g \<and> \<not> starts_run s g \<longrightarrow>
      OBSTACLE_MIN_INTERVAL \<le> spawnIntervalMs (fst (step RM s (g, w))) \<and>
      spawnIntervalMs (fst (step RM s (g, w))) \<le> spawnIntervalMs g) \<and>
   (interval_ok g \<longrightarrow> interval_ok (fst (step RM s (g, w)))) \<and>
   (interval_ok g \<and> same_run RM ss (g, w) \<longrightarrow>
      OBSTACLE_MIN_INTERVAL \<le> spawnIntervalMs (fst (run_steps RM ss (g, w))) \<and>
      spawnIntervalMs (fst (run_steps RM ss (g, w))) \<le> spawnIntervalMs g \<and>
      interval_ok (fst (run_steps RM ss (g, w)))) \<and>
   interval_ok (init_game t0 w0) \<and>
   interval_ok (fst (run_steps RM ss (init_game t0 w0, w0))) \<and>
   (interval_ok g \<and> first_inactive (obstacles g) \<noteq> None \<longrightarrow>
      spawnIntervalMs (spawn_obstacle RM r1 r2 t g) =
        max OBSTACLE_MIN_INTERVAL (fmul (spawnIntervalMs g) OBSTACLE_INTERVAL_DECAY) \<and>
      OBSTACLE_MIN_INTERVAL \<le> spawnIntervalMs (spawn_obstacle RM r1 r2 t g) \<and>
      spawnIntervalMs (spawn_obstacle RM r1 r2 t g) \<le> spawnIntervalMs g \<and>
      is_f32 (spawnIntervalMs (spawn_obstacle RM r1 r2 t g))) \<and>
   interval_ok (reset_gameplay t0 g0)"
proof -
  have b: "interval_ok g \<and> \<not> starts_run s g \<longrightarrow>
      OBSTACLE_MIN_INTERVAL \<le> spawnIntervalMs (fst (step RM s (g, w))) \<and>
      spawnIntervalMs (fst (step RM s (g, w))) \<le> spawnIntervalMs g"
    using step_same_run[of g s RM w] by blast
  have c: "interval_ok g \<longrightarrow> interval_ok (fst (step RM s (g, w)))"
    using step_keeps_ok[of g RM s w] by blast
  have d: "interval_ok g \<and> same_run RM ss (g, w) \<longrightarrow>
      OBSTACLE_MIN_INTERVAL \<le> spawnIntervalMs (fst (run_steps RM ss (g, w))) \<and>
      spawnIntervalMs (fst (run_steps RM ss (g, w))) \<le> spawnIntervalMs g \<and>
      interval_ok (fst (run_steps RM ss (g, w)))"
    using run_same_run[of "(g, w)" RM ss] by (auto simp: interval_ok_def)
  have e: "interval_ok (fst (run_steps RM ss (init_game t0 w0, w0)))"
    by (rule run_keeps_ok) (simp add: init_game_ok)
  have f: "interval_ok g \<and> first_inactive (obstacles g) \<noteq> None \<longrightarrow>
      spawnIntervalMs (spawn_obstacle RM r1 r2 t g) =
        max OBSTACLE_MIN_INTERVAL (fmul (spawnIntervalMs g) OBSTACLE_INTERVAL_DECAY) \<and>
      OBSTACLE_MIN_INTERVAL \<le> spawnIntervalMs (spawn_obstacle RM r1 r2 t g) \<and>
      spawnIntervalMs (spawn_obstacle RM r1 r2 t g) \<le> spawnIntervalMs g \<and>
      is_f32 (spawnIntervalMs (spawn_obstacle RM r1 r2 t g))"
  proof
    assume h: "interval_ok g \<and> first_inactive (obstacles g) \<noteq> None"
    then have ok: "interval_ok g" by simp
    show "spawnIntervalMs (spawn_obstacle RM r1 r2 t g) =
        max OBSTACLE_MIN_INTERVAL (fmul (spawnIntervalMs g) OBSTACLE_INTERVAL_DECAY) \<and>
      OBSTACLE_MIN_INTERVAL \<le> spawnIntervalMs (spawn_obstacle RM r1 r2 t g) \<and>
      spawnIntervalMs (spawn_obstacle RM r1 r2 t g) \<le> spawnIntervalMs g \<and>
      is_f32 (spawnIntervalMs (spawn_obstacle RM r1 r2 t g))"
      using h decay_props[OF ok] by (simp add: spawn_interval_cases)
  qed
  have r: "interval_ok (reset_gameplay t0 g0)"
    using base_interval_ok by (simp add: interval_ok_def reset_gameplay_fields)
  show ?thesis
    using step_interval[of RM s g w] b c d init_game_ok[of t0 w0] e f r
    by (simp only: simp_thms)
qed

lemma first_inactive_replicate_pos:
  "0 < n \<Longrightarrow> first_inactive (replicate n zero_obstacle) = Some 0"
  by (cases n) (simp_all add: zero_obstacle_def)

lemma playing_game_spawns: "spawns (TickStep spawn_input 0) playing_game"
proof -
  have "update_one 0 zero_obstacle 0 = (zero_obstacle, 0)"
    by (simp add: update_one_def zero_obstacle_def)
  then have "obstacles (update_obstacles 0 playing_game) = replicate 64 zero_obstacle"
    by (simp add: update_obstacles_obs playing_game_literal)
  then have "first_inactive (obstacles (update_obstacles 0 playing_game)) = Some 0"
    by (simp add: first_inactive_replicate_pos)
  moreover have "float_of_u32 (t_now spawn_input - lastSpawnTicks playing_game) = 1000"
    by (simp add: spawn_input_def playing_game_literal float_of_u32_def fl_numeral)
  ultimately show ?thesis by (simp add: playing_game_literal)
qed

theorem spawn_interval_decays_witness:
  "interval_ok playing_game \<and> spawnIntervalMs playing_game = 700 \<and>
   \<not> starts_run (TickStep spawn_input 0) playing_game \<and>
   spawns (TickStep spawn_input 0) playing_game \<and>
   spawnIntervalMs (fst (step 2147483647 (TickStep spawn_input 0) (playing_game, empty_world)))
     = max 140 (fmul 700 OBSTACLE_INTERVAL_DECAY) \<and>
   spawnIntervalMs (fst (step 2147483647 (TickStep spawn_input 0) (playing_game, empty_world)))
     \<le> 700 \<and>
   same_run 2147483647 sample_steps (playing_game, empty_world) \<and>
   140 \<le> spawnIntervalMs (fst (run_steps 2147483647 sample_steps (playing_game, empty_world))) \<and>
   spawnIntervalMs (fst (run_steps 2147483647 sample_steps (playing_game, empty_world))) \<le> 700 \<and>
   first_inactive (obstacles playing_game) \<noteq> None \<and>
   140 \<le> spawnIntervalMs (spawn_obstacle 2147483647 12345 67890 1700 playing_game) \<and>
   spawnIntervalMs (spawn_obstacle 2147483647 12345 67890 1700 playing_game) \<le> 700"
proof -
  have ok: "interval_ok playing_game"
    by (simp add: interval_ok_def playing_game_literal is_f32_numeral OBSTACLE_MIN_INTERVAL_def)
  have i: "spawnIntervalMs playing_game = 700" by (simp add: playing_game_literal)
  have sr: "same_run 2147483647 sample_steps (playing_game, empty_world)"
    by (simp add: sample_steps_def)
  have fi: "first_inactive (obstacles playing_game) \<noteq> None"
    by (simp add: playing_first_inactive)
  have ns: "\<not> starts_run (TickStep spawn_input 0) playing_game" by simp
  note th = spawn_interval_decays[of 2147483647 "TickStep spawn_input 0" playing_game empty_world
      sample_steps 0 empty_world 12345 67890 1700 zero_game]
  have A: "spawnIntervalMs (fst (step 2147483647 (TickStep spawn_input 0)
             (playing_game, empty_world))) = max 140 (fmul 700 OBSTACLE_INTERVAL_DECAY)"
    using th[THEN conjunct1] ns playing_game_spawns
    by (simp only: i OBSTACLE_MIN_INTERVAL_def if_True if_False)
  have B: "spawnIntervalMs (fst (step 2147483647 (TickStep spawn_input 0)
             (playing_game, empty_world))) \<le> 700"
    using th[THEN conjunct2, THEN conjunct1] ok ns by (simp only: i simp_thms)
  have C: "140 \<le> spawnIntervalMs (fst (run_steps 2147483647 sample_steps
             (playing_game, empty_world)))"
    "spawnIntervalMs (fst (run_steps 2147483647 sample_steps (playing_game, empty_world)))
       \<le> 700"
    using th[THEN conjunct2, THEN conjunct2, THEN conjunct2, THEN conjunct1] ok sr
    by (simp_all only: i OBSTACLE_MIN_INTERVAL_def simp_thms)
  have D0: "interval_ok playing_game \<and> first_inactive (obstacles playing_game) \<noteq> None \<longrightarrow>
      spawnIntervalMs (spawn_obstacle 2147483647 12345 67890 1700 playing_game) =
        max 140 (fmul 700 OBSTACLE_INTERVAL_DECAY) \<and>
      140 \<le> spawnIntervalMs (spawn_obstacle 2147483647 12345 67890 1700 playing_game) \<and>
      spawnIntervalMs (spawn_obstacle 2147483647 12345 67890 1700 playing_game) \<le> 700 \<and>
      is_f32 (spawnIntervalMs (spawn_obstacle 2147483647 12345 67890 1700 playing_game))"
    using th[THEN conjunct2, THEN conjunct2, THEN conjunct2, THEN conjunct2, THEN conjunct2,
        THEN conjunct2, THEN conjunct1]
    by (simp only: i OBSTACLE_MIN_INTERVAL_def)
  have D: "140 \<le> spawnIntervalMs (spawn_obstacle 2147483647 12345 67890 1700 playing_game)"
    "spawnIntervalMs (spawn_obstacle 2147483647 12345 67890 1700 playing_game) \<le> 700"
    using D0 ok fi by blast+
  show ?thesis
    using ok i ns playing_game_spawns A B sr C fi D by blast
qed

end
